theory Spec2Isabelle
  imports Complex_Main "HOL-Library.Sublist"
begin

section \<open>Strings and numbers of the source language\<close>

text \<open>
  The program is Python. Its strings are modelled as \<^typ>\<open>string\<close> (ASCII text, which is
  what IDF 3.0 files hold) and its lists as HOL lists. Its floats are modelled by real
  numbers: a number read from the file is the real that its text denotes, a numeric
  literal of the source is the real that it denotes, and arithmetic is exact (rounding
  to the nearest double and the non-finite floats are outside the model). Every
  exception the code can raise while it parses or checks is a value of \<open>error\<close>; a
  function that may raise returns \<open>error + 'a\<close>, with \<open>Inl\<close> for the exception.
\<close>

datatype error = IndexError | ValueError | NameError

definition ebind :: "error + 'a \<Rightarrow> ('a \<Rightarrow> error + 'b) \<Rightarrow> error + 'b" where
  "ebind m f = (case m of Inl e \<Rightarrow> Inl e | Inr x \<Rightarrow> f x)"

text \<open>\<open>xs[i]\<close> for an index \<open>i \<ge> 0\<close>: IndexError when out of range.\<close>

definition item :: "'a list \<Rightarrow> nat \<Rightarrow> error + 'a" where
  "item xs i = (if i < length xs then Inr (xs ! i) else Inl IndexError)"

text \<open>\<open>xs[-1]\<close>: IndexError on the empty list.\<close>

definition item_last :: "'a list \<Rightarrow> error + 'a" where
  "item_last xs = (if xs = [] then Inl IndexError else Inr (last xs))"

text \<open>
  \<open>xs[j]\<close> for an index that the surrounding code keeps within \<open>-len(xs) \<le> j < len(xs)\<close>:
  a negative index counts from the end.
\<close>

definition pynth :: "'a list \<Rightarrow> int \<Rightarrow> 'a" where
  "pynth xs j = (if j < 0 then xs ! nat (int (length xs) + j) else xs ! nat j)"

text \<open>The characters \<open>str.split()\<close> and \<open>str.strip()\<close> treat as whitespace (ASCII).\<close>

definition isspace :: "char \<Rightarrow> bool" where
  "isspace c = (of_char c \<in> {9, 10, 11, 12, 13, 28, 29, 30, 31, 32 :: nat})"

text \<open>\<open>s.split()\<close>: the maximal runs of non-whitespace characters.\<close>

fun split_go :: "string \<Rightarrow> string \<Rightarrow> string list" where
  "split_go cur [] = (if cur = [] then [] else [cur])"
| "split_go cur (c # cs) =
     (if isspace c then (if cur = [] then split_go [] cs else cur # split_go [] cs)
      else split_go (cur @ [c]) cs)"

definition str_split :: "string \<Rightarrow> string list" where
  "str_split s = split_go [] s"

text \<open>\<open>s.split(sep)\<close> for a one-character separator: never an empty list.\<close>

fun split_on_go :: "char \<Rightarrow> string \<Rightarrow> string \<Rightarrow> string list" where
  "split_on_go sep cur [] = [cur]"
| "split_on_go sep cur (c # cs) =
     (if c = sep then cur # split_on_go sep [] cs else split_on_go sep (cur @ [c]) cs)"

definition str_split_on :: "char \<Rightarrow> string \<Rightarrow> string list" where
  "str_split_on sep s = split_on_go sep [] s"

definition strip :: "string \<Rightarrow> string" where
  "strip s = rev (dropWhile isspace (rev (dropWhile isspace s)))"

text \<open>\<open>sub in s\<close> on strings: \<open>sub\<close> occurs as a contiguous piece of \<open>s\<close>.\<close>

fun str_in :: "string \<Rightarrow> string \<Rightarrow> bool" where
  "str_in sub [] = (sub = [])"
| "str_in sub (c # cs) = (prefix sub (c # cs) \<or> str_in sub cs)"

definition upper_char :: "char \<Rightarrow> char" where
  "upper_char c = (if 97 \<le> (of_char c :: nat) \<and> (of_char c :: nat) \<le> 122
                   then char_of ((of_char c :: nat) - 32) else c)"

definition upper :: "string \<Rightarrow> string" where
  "upper s = map upper_char s"

text \<open>
  \<open>float(s)\<close> is Python's own parser, not code of this program: the model takes it as a
  parameter \<open>pf\<close> that gives the number read, or \<open>None\<close> where \<open>float\<close> raises ValueError.
\<close>

type_synonym float_parser = "string \<Rightarrow> real option"

definition float_of :: "float_parser \<Rightarrow> string \<Rightarrow> error + real" where
  "float_of pf s = (case pf s of None \<Rightarrow> Inl ValueError | Some r \<Rightarrow> Inr r)"

text \<open>
  A concrete parser for the plain decimal notation of the examples below: surrounding
  whitespace, an optional sign, digits, and an optional fraction.
\<close>

definition is_digit :: "char \<Rightarrow> bool" where
  "is_digit c = (48 \<le> (of_char c :: nat) \<and> (of_char c :: nat) \<le> 57)"

definition digits_val :: "string \<Rightarrow> nat" where
  "digits_val ds = foldl (\<lambda>n c. 10 * n + ((of_char c :: nat) - 48)) 0 ds"

definition unsigned_dec :: "string \<Rightarrow> real option" where
  "unsigned_dec s =
     (let ip = takeWhile is_digit s; rest = dropWhile is_digit s in
      if rest = [] then (if ip = [] then None else Some (real (digits_val ip)))
      else if hd rest = CHR ''.'' \<and> list_all is_digit (tl rest) \<and> (ip \<noteq> [] \<or> tl rest \<noteq> [])
      then Some (real (digits_val ip) + real (digits_val (tl rest)) / 10 ^ length (tl rest))
      else None)"

definition dec_float :: float_parser where
  "dec_float s =
     (case strip s of
        [] \<Rightarrow> None
      | c # cs \<Rightarrow>
          if c = CHR ''-'' then map_option uminus (unsigned_dec cs)
          else if c = CHR ''+'' then unsigned_dec cs
          else unsigned_dec (c # cs))"

section \<open>The data model of \<open>emnObj.py\<close>\<close>

definition BOARD_START :: string where "BOARD_START = ''.BOARD_OUTLINE''"
definition BOARD_END :: string where "BOARD_END = ''.END_BOARD_OUTLINE''"
definition DRILL_START :: string where "DRILL_START = ''.DRILLED_HOLES''"
definition DRILL_END :: string where "DRILL_END = ''.END_DRILLED_HOLES''"
definition HEADER_START :: string where "HEADER_START = ''.HEADER''"
definition HEADER_END :: string where "HEADER_END = ''.END_HEADER''"
definition OTHER_START :: string where "OTHER_START = ''.OTHER_OUTLINE''"
definition OTHER_END :: string where "OTHER_END = ''.END_OTHER_OUTLINE''"
definition PLACE_KEEPOUT_START :: string where "PLACE_KEEPOUT_START = ''.PLACE_KEEPOUT''"
definition PLACE_KEEPOUT_END :: string where "PLACE_KEEPOUT_END = ''.END_PLACE_KEEPOUT''"
definition PLACE_OUTLINE_START :: string where "PLACE_OUTLINE_START = ''.PLACE_OUTLINE''"
definition PLACE_OUTLINE_END :: string where "PLACE_OUTLINE_END = ''.END_PLACE_OUTLINE''"
definition PLACEMENT_START :: string where "PLACEMENT_START = ''.PLACEMENT''"
definition PLACEMENT_END :: string where "PLACEMENT_END = ''.END_PLACEMENT''"
definition ROUTE_START :: string where "ROUTE_START = ''.ROUTE_OUTLINE''"
definition ROUTE_END :: string where "ROUTE_END = ''.END_ROUTE_OUTLINE''"
definition ROUTE_KEEPOUT_START :: string where "ROUTE_KEEPOUT_START = ''.ROUTE_KEEOUT''"
definition ROUTE_KEEPOUT_END :: string where "ROUTE_KEEPOUT_END = ''.END_ROUTE_KEEPOUT''"
definition VIA_KEEPOUT_START :: string where "VIA_KEEPOUT_START = ''.VIA_KEEPOUT''"
definition VIA_KEEPOUT_END :: string where "VIA_KEEPOUT_END = ''.END_VIA_KEEPOUT''"

definition SHAPE_STARTS :: "string list" where
  "SHAPE_STARTS = [BOARD_START, OTHER_START, PLACE_KEEPOUT_START, PLACE_OUTLINE_START,
                   ROUTE_START, ROUTE_KEEPOUT_START, VIA_KEEPOUT_START]"

definition SHAPE_ENDS :: "string list" where
  "SHAPE_ENDS = [BOARD_END, OTHER_END, PLACE_KEEPOUT_END, PLACE_OUTLINE_END,
                 ROUTE_END, ROUTE_KEEPOUT_END, VIA_KEEPOUT_END]"

text \<open>A coordinate line \<open>[cutout, xPos, yPos, arc]\<close> of \<open>shape.getCoords\<close>.\<close>

record vertex =
  cutout :: real
  xPos :: real
  yPos :: real
  arc :: real

text \<open>
  Class \<open>shape\<close>: \<open>outline\<close> is \<open>coordinates[0]\<close> and \<open>cutouts\<close> is \<open>coordinates[1:]\<close>.
\<close>

record shape =
  sType :: string
  coordinates :: "vertex list list"
  outline :: "vertex list"
  cutouts :: "vertex list list"
  height :: real

text \<open>Class \<open>part\<close>; \<open>part_coordinates\<close> is its \<open>coordinates\<close> list \<open>[xPos, yPos, rot]\<close>.\<close>

record part =
  part_coordinates :: "real \<times> real \<times> real"
  side :: string
  name :: string
  refDes :: string

text \<open>Class \<open>drill\<close>; \<open>drill_coordinates\<close> is its \<open>coordinates\<close> list \<open>[xPos, yPos]\<close>.\<close>

record drill =
  drill_coordinates :: "real \<times> real"
  diameter :: real

text \<open>
  The values the \<open>__str__\<close> methods substitute into their format strings:
  \<open>"%s starting at [%.2f,%.2f]"\<close> for a shape, \<open>"%s (%s) at [%.2f,%.2f]"\<close> for a part,
  \<open>"Drill with diameter %.2f at [%.2f,%.2f]"\<close> for a drill.
\<close>

type_synonym shape_text = "string \<times> real \<times> real"
type_synonym part_text = "string \<times> string \<times> real \<times> real"
type_synonym drill_text = "real \<times> real \<times> real"

text \<open>
  An entry of \<open>emnObj.errors\<close>. Each constructor is one message of the source and
  carries the values formatted into it:
  \<^item> \<open>CouldNotFindUnits\<close>: "Could not find units in file";
  \<^item> \<open>InvalidChars n r\<close>: "n (r) has invalid characters in its part name.";
  \<^item> \<open>NotInLibrary n\<close>: "n not found in parts library";
  \<^item> \<open>InvalidCharsSummary\<close>: "Part names with invalid characters were detected. ...";
  \<^item> \<open>TooShort s\<close>: "s is too short to be checked in Board Modeler Lite.";
  \<^item> \<open>RecommendKeepout\<close>: "Recommend using .PLACE_KEEPOUT instead of zero-height ...";
  \<^item> \<open>ShapeNegative s\<close>: "s has coordinates in negative X,Y space.";
  \<^item> \<open>PartNegative p\<close>: "Part p is in negative X,Y space.";
  \<^item> \<open>DrillNegative d\<close>: "d is in negative X,Y space.";
  \<^item> \<open>NotClosed s\<close>: "s is not a closed shape.";
  \<^item> \<open>CutoutNotClosed s x y\<close>: "s has a cutout at [x,y] that is not a closed shape.";
  \<^item> \<open>RefDesR p\<close>: "p has an 'R' reference designator.";
  \<^item> \<open>CutoutCircular s x y\<close>: "s has a cutout at [x,y] that is circular.";
  \<^item> \<open>NoShapes\<close>: "No shapes found. Is this IDF 3.0 data?";
  \<^item> \<open>InfinitesimalArc x y\<close>: "Infinitesimal arc intersection found at [x,y]".
\<close>

datatype diag =
    CouldNotFindUnits
  | InvalidChars string string
  | NotInLibrary string
  | InvalidCharsSummary
  | TooShort shape_text
  | RecommendKeepout
  | ShapeNegative shape_text
  | PartNegative part_text
  | DrillNegative drill_text
  | NotClosed shape_text
  | CutoutNotClosed shape_text real real
  | RefDesR part_text
  | CutoutCircular shape_text real real
  | NoShapes
  | InfinitesimalArc real real

record emnObj =
  fileName :: string
  parts :: "part list"
  shapes :: "shape list"
  errors :: "diag list"
  units :: string
  drills :: "drill list"

section \<open>Class \<open>shape\<close>\<close>

text \<open>\<open>shape.__str__\<close> reads \<open>self.outline[0]\<close>: IndexError on an empty outline.\<close>

definition shape_str :: "shape \<Rightarrow> error + shape_text" where
  "shape_str sh = ebind (item (outline sh) 0) (\<lambda>v. Inr (sType sh, xPos v, yPos v))"

text \<open>The four \<open>float(...)\<close> calls on one split coordinate line, in the source's order.\<close>

definition parse_coord :: "float_parser \<Rightarrow> string list \<Rightarrow> error + vertex" where
  "parse_coord pf line =
     ebind (float_of pf (line ! 0)) (\<lambda>c.
     ebind (float_of pf (line ! 1)) (\<lambda>x.
     ebind (float_of pf (line ! 2)) (\<lambda>y.
     ebind (float_of pf (line ! 3)) (\<lambda>a.
     Inr \<lparr>cutout = c, xPos = x, yPos = y, arc = a\<rparr>))))"

text \<open>
  The second loop of \<open>shape.getCoords\<close>, with its variables \<open>subshapeList\<close>,
  \<open>currentSubshape\<close> and \<open>cutoutIndex\<close>.
\<close>

fun getCoords_loop ::
  "float_parser \<Rightarrow> string list list \<Rightarrow> vertex list list \<Rightarrow> vertex list \<Rightarrow> real
   \<Rightarrow> error + (vertex list list \<times> vertex list)" where
  "getCoords_loop pf [] subshapeList currentSubshape cutoutIndex =
     Inr (subshapeList, currentSubshape)"
| "getCoords_loop pf (line # rest) subshapeList currentSubshape cutoutIndex =
     (case parse_coord pf line of
        Inl e \<Rightarrow> Inl e
      | Inr coord \<Rightarrow>
          if cutoutIndex = cutout coord
          then getCoords_loop pf rest subshapeList (currentSubshape @ [coord]) cutoutIndex
          else getCoords_loop pf rest (subshapeList @ [currentSubshape]) [coord] (cutout coord))"

definition getCoords :: "float_parser \<Rightarrow> string list \<Rightarrow> error + vertex list list" where
  "getCoords pf sData =
     (let shapeStrs = map str_split (filter (\<lambda>line. length (str_split line) = 4) sData) in
      ebind (getCoords_loop pf shapeStrs [] [] 0)
        (\<lambda>(subshapeList, currentSubshape). Inr (subshapeList @ [currentSubshape])))"

definition getHeight :: "float_parser \<Rightarrow> string list \<Rightarrow> string \<Rightarrow> error + real" where
  "getHeight pf sData st =
     (if st = BOARD_START then ebind (item sData 1) (float_of pf)
      else if st = OTHER_START \<or> st = PLACE_OUTLINE_START
      then ebind (item sData 1) (\<lambda>line. ebind (item (str_split line) 1) (float_of pf))
      else Inr 0)"

text \<open>\<open>shape.__init__\<close>.\<close>

definition shape_init :: "float_parser \<Rightarrow> string list \<Rightarrow> error + shape" where
  "shape_init pf sData =
     ebind (item sData 0) (\<lambda>first.
     ebind (item (str_split first) 0) (\<lambda>st.
     ebind (getCoords pf sData) (\<lambda>cs.
     ebind (item cs 0) (\<lambda>ol.
     ebind (getHeight pf sData st) (\<lambda>h.
     Inr \<lparr>sType = st, coordinates = cs, outline = ol, cutouts = drop 1 cs, height = h\<rparr>)))))"

section \<open>Classes \<open>part\<close> and \<open>drill\<close>\<close>

definition part_str :: "part \<Rightarrow> part_text" where
  "part_str p = (name p, refDes p, fst (part_coordinates p), fst (snd (part_coordinates p)))"

text \<open>\<open>part.getCoords\<close> on the second line of the pair.\<close>

definition part_getCoords :: "float_parser \<Rightarrow> string \<Rightarrow> error + (real \<times> real \<times> real)" where
  "part_getCoords pf l1 =
     ebind (ebind (item (str_split l1) 0) (float_of pf)) (\<lambda>x.
     ebind (ebind (item (str_split l1) 1) (float_of pf)) (\<lambda>y.
     ebind (ebind (item (str_split l1) 3) (float_of pf)) (\<lambda>rot.
     Inr (x, y, rot))))"

text \<open>\<open>part.getNames\<close> on the first line of the pair; the result is \<open>(pName, rName)\<close>.\<close>

definition getNames :: "string \<Rightarrow> error + (string \<times> string)" where
  "getNames l0 =
     (if CHR 0x22 \<in> set l0
      then ebind (item (str_split_on (CHR 0x22) l0) 1) (\<lambda>pName.
           ebind (item_last (str_split_on (CHR 0x22) l0)) (\<lambda>rName.
           Inr (pName, strip rName)))
      else ebind (item (str_split l0) 0) (\<lambda>pName.
           ebind (item_last (str_split l0)) (\<lambda>rName.
           Inr (pName, rName))))"

text \<open>\<open>part.__init__\<close> on \<open>pData = [l0, l1]\<close>.\<close>

definition part_init :: "float_parser \<Rightarrow> string \<times> string \<Rightarrow> error + part" where
  "part_init pf pData =
     ebind (part_getCoords pf (snd pData)) (\<lambda>c.
     ebind (item (str_split (snd pData)) 4) (\<lambda>sd.
     ebind (getNames (fst pData)) (\<lambda>(pName, rName).
     Inr \<lparr>part_coordinates = c, side = sd, name = pName, refDes = rName\<rparr>)))"

definition drill_str :: "drill \<Rightarrow> drill_text" where
  "drill_str d = (diameter d, fst (drill_coordinates d), snd (drill_coordinates d))"

text \<open>\<open>drill.__init__\<close>.\<close>

definition drill_init :: "float_parser \<Rightarrow> string \<Rightarrow> error + drill" where
  "drill_init pf dData =
     ebind (ebind (item (str_split dData) 0) (float_of pf)) (\<lambda>dia.
     ebind (ebind (item (str_split dData) 1) (float_of pf)) (\<lambda>x.
     ebind (ebind (item (str_split dData) 2) (float_of pf)) (\<lambda>y.
     Inr \<lparr>drill_coordinates = (x, y), diameter = dia\<rparr>)))"

section \<open>Class \<open>emnObj\<close>: building the board\<close>

text \<open>
  \<open>emnObj.getParts\<close>: the loop over \<open>self._emnData\<close> with its variables \<open>partsRange\<close>,
  \<open>partLines[0]\<close>, \<open>firstLine\<close> and \<open>partList\<close>.
\<close>

fun getParts_loop ::
  "float_parser \<Rightarrow> string list \<Rightarrow> bool \<Rightarrow> string \<Rightarrow> bool \<Rightarrow> part list \<Rightarrow> error + part list" where
  "getParts_loop pf [] partsRange l0 firstLine partList = Inr partList"
| "getParts_loop pf (line # rest) partsRange l0 firstLine partList =
     (let partsRange1 = (if str_in PLACEMENT_END line then False else partsRange);
          partsRange2 = (if str_in PLACEMENT_START line then True else partsRange1)
      in if partsRange1
         then (if firstLine
               then getParts_loop pf rest partsRange2 line False partList
               else (case part_init pf (l0, line) of
                       Inl e \<Rightarrow> Inl e
                     | Inr p \<Rightarrow> getParts_loop pf rest partsRange2 l0 True (partList @ [p])))
         else getParts_loop pf rest partsRange2 l0 firstLine partList)"

definition getParts :: "float_parser \<Rightarrow> string list \<Rightarrow> error + part list" where
  "getParts pf emnData = getParts_loop pf emnData False [] True []"

text \<open>
  \<open>emnObj.getUnits\<close>: the result is the units string and what the loop appended to
  \<open>self.errors\<close>.
\<close>

fun getUnits_loop :: "string list \<Rightarrow> string \<Rightarrow> string \<times> diag list" where
  "getUnits_loop [] boardUnits = (boardUnits, [])"
| "getUnits_loop (line # rest) boardUnits =
     (if str_in ''THOU'' line then (''THOU'', [])
      else if str_in ''MM'' line then (''MM'', [])
      else if str_in HEADER_END line then (''ERROR'', [CouldNotFindUnits])
      else getUnits_loop rest ''ERROR'')"

definition getUnits :: "string list \<Rightarrow> string \<times> diag list" where
  "getUnits emnData = getUnits_loop emnData []"

text \<open>
  \<open>emnObj.getShapes\<close>. The inner loop over \<open>SHAPE_ENDS\<close> builds a shape from
  \<open>currentLines\<close> at every end keyword the line contains.
\<close>

fun shape_ends_loop ::
  "float_parser \<Rightarrow> string \<Rightarrow> string list \<Rightarrow> shape list \<Rightarrow> string list \<Rightarrow> bool
   \<Rightarrow> error + (shape list \<times> string list \<times> bool)" where
  "shape_ends_loop pf line [] shapeList currentLines coordRange =
     Inr (shapeList, currentLines, coordRange)"
| "shape_ends_loop pf line (keyword # ks) shapeList currentLines coordRange =
     (if str_in keyword line
      then (case shape_init pf currentLines of
              Inl e \<Rightarrow> Inl e
            | Inr sh \<Rightarrow> shape_ends_loop pf line ks (shapeList @ [sh]) [] False)
      else shape_ends_loop pf line ks shapeList currentLines coordRange)"

fun getShapes_loop ::
  "float_parser \<Rightarrow> string list \<Rightarrow> shape list \<Rightarrow> string list \<Rightarrow> bool \<Rightarrow> error + shape list" where
  "getShapes_loop pf [] shapeList currentLines coordRange = Inr shapeList"
| "getShapes_loop pf (line # rest) shapeList currentLines coordRange =
     (let coordRange1 =
            (if list_ex (\<lambda>keyword. str_in keyword line) SHAPE_STARTS then True else coordRange);
          currentLines1 = (if coordRange1 then currentLines @ [line] else currentLines)
      in case shape_ends_loop pf line SHAPE_ENDS shapeList currentLines1 coordRange1 of
           Inl e \<Rightarrow> Inl e
         | Inr (shapeList2, currentLines2, coordRange2) \<Rightarrow>
             getShapes_loop pf rest shapeList2 currentLines2 coordRange2)"

definition getShapes :: "float_parser \<Rightarrow> string list \<Rightarrow> error + shape list" where
  "getShapes pf emnData = getShapes_loop pf emnData [] [] False"

text \<open>\<open>emnObj.getDrills\<close>.\<close>

fun getDrills_loop ::
  "float_parser \<Rightarrow> string list \<Rightarrow> bool \<Rightarrow> drill list \<Rightarrow> error + drill list" where
  "getDrills_loop pf [] drillRange drillList = Inr drillList"
| "getDrills_loop pf (line # rest) drillRange drillList =
     (let drillRange1 = (if str_in DRILL_END line then False else drillRange);
          drillRange2 = (if str_in DRILL_START line then True else drillRange1)
      in if drillRange1
         then (case drill_init pf line of
                 Inl e \<Rightarrow> Inl e
               | Inr d \<Rightarrow> getDrills_loop pf rest drillRange2 (drillList @ [d]))
         else getDrills_loop pf rest drillRange2 drillList)"

definition getDrills :: "float_parser \<Rightarrow> string list \<Rightarrow> error + drill list" where
  "getDrills pf emnData = getDrills_loop pf emnData False []"

text \<open>
  \<open>emnObj.__init__\<close>: parts, shapes, \<open>errors = []\<close>, units (which may append to
  \<open>errors\<close>), drills, in this order.
\<close>

definition emnObj_init :: "float_parser \<Rightarrow> string list \<Rightarrow> string \<Rightarrow> error + emnObj" where
  "emnObj_init pf currentData fname =
     ebind (getParts pf currentData) (\<lambda>ps.
     ebind (getShapes pf currentData) (\<lambda>ss.
     ebind (getDrills pf currentData) (\<lambda>ds.
     Inr \<lparr>fileName = fname, parts = ps, shapes = ss,
          errors = [] @ snd (getUnits currentData),
          units = fst (getUnits currentData), drills = ds\<rparr>)))"

text \<open>
  \<open>getEmnsInFolder\<close> of \<open>idfCheckingTool.py\<close>. The files that \<open>glob\<close> finds are given
  with their lines; nothing in the loop catches an exception of \<open>emnObj.emnObj\<close>.
\<close>

fun getEmnsInFolder_loop ::
  "float_parser \<Rightarrow> (string \<times> string list) list \<Rightarrow> emnObj list \<Rightarrow> error + emnObj list" where
  "getEmnsInFolder_loop pf [] emnObjList = Inr emnObjList"
| "getEmnsInFolder_loop pf ((file, lineList) # rest) emnObjList =
     (case emnObj_init pf lineList file of
        Inl e \<Rightarrow> Inl e
      | Inr newEmnObj \<Rightarrow> getEmnsInFolder_loop pf rest (emnObjList @ [newEmnObj]))"

definition getEmnsInFolder ::
  "float_parser \<Rightarrow> (string \<times> string list) list \<Rightarrow> error + emnObj list" where
  "getEmnsInFolder pf files = getEmnsInFolder_loop pf files []"

section \<open>Class \<open>emnObj\<close>: the error checking suite\<close>

text \<open>
  A \<open>for\<close> loop whose body either raises or appends the diagnostics \<open>body x\<close> to
  \<open>self.errors\<close>.
\<close>

fun for_each :: "('a \<Rightarrow> error + diag list) \<Rightarrow> 'a list \<Rightarrow> diag list \<Rightarrow> error + diag list" where
  "for_each body [] errs = Inr errs"
| "for_each body (x # xs) errs =
     (case body x of Inl e \<Rightarrow> Inl e | Inr ds \<Rightarrow> for_each body xs (errs @ ds))"

text \<open>\<open>toCheck\<close> of \<open>checkClosedErrors\<close> and \<open>checkArcAngle\<close>: the outline, then the cutouts.\<close>

definition toCheck :: "shape \<Rightarrow> vertex list list" where
  "toCheck currentShape =
     [outline currentShape] @ (if cutouts currentShape \<noteq> [] then cutouts currentShape else [])"

subsection \<open>\<open>checkHeightErrors\<close>\<close>

text \<open>The value of the local \<open>heightError\<close> after the \<open>if\<close>/\<open>elif\<close> of the loop body.\<close>

definition heightError :: "string \<Rightarrow> shape \<Rightarrow> bool" where
  "heightError u currentShape =
     (if sType currentShape = PLACE_OUTLINE_START \<and> u = ''MM'' \<and> height currentShape \<le> 0.026
      then True
      else if sType currentShape = PLACE_OUTLINE_START \<and> u = ''THOU'' \<and> height currentShape \<le> 1
      then True
      else False)"

fun checkHeightErrors_loop ::
  "string \<Rightarrow> shape list \<Rightarrow> diag list \<Rightarrow> bool \<Rightarrow> error + (diag list \<times> bool)" where
  "checkHeightErrors_loop u [] errs heightFlag = Inr (errs, heightFlag)"
| "checkHeightErrors_loop u (currentShape # rest) errs heightFlag =
     (if heightError u currentShape
      then (case shape_str currentShape of
              Inl e \<Rightarrow> Inl e
            | Inr str \<Rightarrow> checkHeightErrors_loop u rest (errs @ [TooShort str]) True)
      else checkHeightErrors_loop u rest errs heightFlag)"

definition checkHeightErrors :: "emnObj \<Rightarrow> error + emnObj" where
  "checkHeightErrors b =
     ebind (checkHeightErrors_loop (units b) (shapes b) (errors b) False)
       (\<lambda>(errs, heightFlag).
          Inr (b\<lparr>errors := (if heightFlag then errs @ [RecommendKeepout] else errs)\<rparr>))"

subsection \<open>\<open>checkNegErrors\<close>\<close>

definition negShape :: "shape \<Rightarrow> bool" where
  "negShape currentShape =
     list_ex (\<lambda>coordList. list_ex (\<lambda>coord. xPos coord < 0 \<or> yPos coord < 0) coordList)
       (coordinates currentShape)"

definition checkNeg_shape :: "shape \<Rightarrow> error + diag list" where
  "checkNeg_shape currentShape =
     (if negShape currentShape
      then ebind (shape_str currentShape) (\<lambda>str. Inr [ShapeNegative str])
      else Inr [])"

definition checkNeg_part :: "part \<Rightarrow> diag list" where
  "checkNeg_part currentPart =
     (if fst (part_coordinates currentPart) < 0 \<or> fst (snd (part_coordinates currentPart)) < 0
      then [PartNegative (part_str currentPart)] else [])"

definition checkNeg_drill :: "drill \<Rightarrow> diag list" where
  "checkNeg_drill currentDrill =
     (if fst (drill_coordinates currentDrill) < 0 \<or> snd (drill_coordinates currentDrill) < 0
      then [DrillNegative (drill_str currentDrill)] else [])"

definition checkNegErrors :: "emnObj \<Rightarrow> error + emnObj" where
  "checkNegErrors b =
     ebind (for_each checkNeg_shape (shapes b) (errors b)) (\<lambda>errs.
       Inr (b\<lparr>errors := errs @ concat (map checkNeg_part (parts b))
                              @ concat (map checkNeg_drill (drills b))\<rparr>))"

subsection \<open>\<open>checkClosedErrors\<close>\<close>

text \<open>\<open>s[0][:3]\<close>: the first three fields of a coordinate.\<close>

definition first3 :: "vertex \<Rightarrow> real \<times> real \<times> real" where
  "first3 v = (cutout v, xPos v, yPos v)"

text \<open>The body of \<open>for s in toCheck\<close>; \<open>s[-1]\<close> is read only when \<open>len(s) >= 3\<close>.\<close>

definition checkClosed_sub :: "shape \<Rightarrow> vertex list \<Rightarrow> error + diag list" where
  "checkClosed_sub currentShape s =
     (if length s \<ge> 3 \<and> first3 (s ! 0) \<noteq> first3 (last s)
      then (if cutout (s ! 0) = 0
            then ebind (shape_str currentShape) (\<lambda>str. Inr [NotClosed str])
            else ebind (shape_str currentShape)
                   (\<lambda>str. Inr [CutoutNotClosed str (xPos (s ! 0)) (yPos (s ! 0))]))
      else if length s = 2 \<and> arc (s ! 1) \<noteq> 360
      then ebind (shape_str currentShape) (\<lambda>str. Inr [NotClosed str])
      else Inr [])"

definition checkClosed_shape :: "shape \<Rightarrow> error + diag list" where
  "checkClosed_shape currentShape =
     for_each (checkClosed_sub currentShape) (toCheck currentShape) []"

definition checkClosedErrors :: "emnObj \<Rightarrow> error + emnObj" where
  "checkClosedErrors b =
     ebind (for_each checkClosed_shape (shapes b) (errors b)) (\<lambda>errs. Inr (b\<lparr>errors := errs\<rparr>))"

subsection \<open>\<open>checkRefDesErrors\<close>\<close>

text \<open>\<open>part.refDes[0]\<close> raises IndexError on the empty string.\<close>

definition checkRefDes_part :: "part \<Rightarrow> error + diag list" where
  "checkRefDes_part p =
     ebind (item (refDes p) 0) (\<lambda>c. if c = CHR ''R'' then Inr [RefDesR (part_str p)] else Inr [])"

definition checkRefDesErrors :: "emnObj \<Rightarrow> error + emnObj" where
  "checkRefDesErrors b =
     ebind (for_each checkRefDes_part (parts b) (errors b)) (\<lambda>errs. Inr (b\<lparr>errors := errs\<rparr>))"

subsection \<open>\<open>checkRoundCutout\<close>\<close>

text \<open>
  The first loop: every iteration starts \<open>toCheck\<close> afresh, so that after the loop it
  holds the cutouts of the last shape, and \<open>currentShape\<close> is that shape (unbound when
  there is no shape).
\<close>

fun checkRoundCutout_scan ::
  "shape list \<Rightarrow> vertex list list \<Rightarrow> shape option \<Rightarrow> vertex list list \<times> shape option" where
  "checkRoundCutout_scan [] tc cur = (tc, cur)"
| "checkRoundCutout_scan (currentShape # rest) tc cur =
     checkRoundCutout_scan rest
       ([] @ (if cutouts currentShape \<noteq> [] then cutouts currentShape else []))
       (Some currentShape)"

text \<open>The body of the second loop, \<open>for s in toCheck\<close>, which follows the first one.\<close>

definition checkRoundCutout_sub :: "shape option \<Rightarrow> vertex list \<Rightarrow> error + diag list" where
  "checkRoundCutout_sub cur s =
     (if length s = 2 \<and> arc (s ! 1) = 360
      then (case cur of
              None \<Rightarrow> Inl NameError
            | Some currentShape \<Rightarrow>
                ebind (shape_str currentShape)
                  (\<lambda>str. Inr [CutoutCircular str (xPos (s ! 0)) (yPos (s ! 0))]))
      else Inr [])"

definition checkRoundCutout :: "emnObj \<Rightarrow> error + emnObj" where
  "checkRoundCutout b =
     (case checkRoundCutout_scan (shapes b) [] None of
        (tc, cur) \<Rightarrow>
          ebind (for_each (checkRoundCutout_sub cur) tc (errors b))
            (\<lambda>errs. Inr (b\<lparr>errors := errs\<rparr>)))"

subsection \<open>\<open>checkEmpty\<close>\<close>

definition checkEmpty :: "emnObj \<Rightarrow> emnObj" where
  "checkEmpty b = (if shapes b = [] then b\<lparr>errors := errors b @ [NoShapes]\<rparr> else b)"

subsection \<open>\<open>checkArcAngle\<close>\<close>

text \<open>
  The functions of Python's \<open>math\<close> module that the check calls, on real numbers:
  \<open>math.tau\<close>, \<open>math.radians\<close>, \<open>math.atan2\<close>, \<open>math.fmod\<close> (the remainder has the sign
  of the dividend) and \<open>math.isclose\<close>; \<open>math.fabs\<close> is \<open>abs\<close>.
\<close>

definition tau :: real where
  "tau = 2 * pi"

definition radians :: "real \<Rightarrow> real" where
  "radians x = x * (pi / 180)"

definition atan2 :: "real \<Rightarrow> real \<Rightarrow> real" where
  "atan2 y x =
     (if 0 < x then arctan (y / x)
      else if x < 0 \<and> 0 \<le> y then arctan (y / x) + pi
      else if x < 0 \<and> y < 0 then arctan (y / x) - pi
      else if 0 < y then pi / 2
      else if y < 0 then - (pi / 2)
      else 0)"

definition fmod :: "real \<Rightarrow> real \<Rightarrow> real" where
  "fmod x y = x - y * of_int (if 0 \<le> x / y then \<lfloor>x / y\<rfloor> else \<lceil>x / y\<rceil>)"

definition isclose :: "real \<Rightarrow> real \<Rightarrow> real \<Rightarrow> real \<Rightarrow> bool" where
  "isclose a b rel_tol abs_tol = (\<bar>a - b\<bar> \<le> max (rel_tol * max \<bar>a\<bar> \<bar>b\<bar>) abs_tol)"

text \<open>
  Lines 324 to 340: \<open>delta\<close>, computed from the arc angles \<open>phi0\<close>, \<open>phi1\<close> and the three
  coordinates the source's comments call point 0, point 1 and point 2.
\<close>

definition arc_delta :: "real \<Rightarrow> real \<Rightarrow> vertex \<Rightarrow> vertex \<Rightarrow> vertex \<Rightarrow> real" where
  "arc_delta phi0 phi1 p0 p1 p2 =
     (let phi0r = radians phi0;
          phi1r = radians phi1;
          alpha0 = atan2 (yPos p0 - yPos p1) (xPos p0 - xPos p1);
          alpha1 = atan2 (yPos p2 - yPos p1) (xPos p2 - xPos p1);
          alpha0p = fmod (alpha0 + tau) tau;
          alpha1p = fmod (alpha1 + tau) tau;
          beta0 = alpha0p + phi0r / 2;
          beta1 = alpha1p - phi1r / 2
      in fmod \<bar>beta1 - beta0\<bar> tau)"

text \<open>
  The body of \<open>for i in range(len(s))\<close>; the indices \<open>i-1\<close> and \<open>i-2\<close> may be negative
  and then count from the end of \<open>s\<close>.
\<close>

definition checkArcAngle_vertex :: "vertex list \<Rightarrow> nat \<Rightarrow> diag list" where
  "checkArcAngle_vertex s i =
     (let phi0 = arc (pynth s (int i - 1));
          phi1 = arc (pynth s (int i))
      in if phi0 \<noteq> 0 \<or> phi1 \<noteq> 0
         then (let delta = arc_delta phi0 phi1 (pynth s (int i - 2)) (pynth s (int i - 1))
                             (pynth s (int i))
               in if isclose delta 0 0.01 0.01 \<or> isclose delta tau 0.01 0.01
                  then [InfinitesimalArc (xPos (pynth s (int i - 1))) (yPos (pynth s (int i - 1)))]
                  else [])
         else [])"

text \<open>The body of \<open>for s in toCheck\<close>: \<open>s = s[1:]\<close>, then the loop over \<open>range(len(s))\<close>.\<close>

definition checkArcAngle_sub :: "vertex list \<Rightarrow> diag list" where
  "checkArcAngle_sub s0 =
     (let s = drop 1 s0
      in if length s > 2 then concat (map (checkArcAngle_vertex s) [0..<length s]) else [])"

definition checkArcAngle :: "emnObj \<Rightarrow> emnObj" where
  "checkArcAngle b =
     b\<lparr>errors := errors b @
          concat (map (\<lambda>currentShape. concat (map checkArcAngle_sub (toCheck currentShape)))
                    (shapes b))\<rparr>"

subsection \<open>\<open>checkLibErrors\<close> and \<open>checkAllErrors\<close>\<close>

fun checkLibErrors_loop ::
  "string list \<Rightarrow> part list \<Rightarrow> diag list \<Rightarrow> bool \<Rightarrow> diag list \<times> bool" where
  "checkLibErrors_loop partsLibrary [] errs circFlag = (errs, circFlag)"
| "checkLibErrors_loop partsLibrary (p # rest) errs circFlag =
     (if CHR ''_'' \<in> set (name p) \<or> CHR ''^'' \<in> set (name p) \<or> str_in ''_cc'' (name p)
      then checkLibErrors_loop partsLibrary rest (errs @ [InvalidChars (name p) (refDes p)]) True
      else if upper (name p) \<notin> set partsLibrary
      then checkLibErrors_loop partsLibrary rest (errs @ [NotInLibrary (name p)]) circFlag
      else checkLibErrors_loop partsLibrary rest errs circFlag)"

definition checkLibErrors :: "emnObj \<Rightarrow> string list \<Rightarrow> emnObj" where
  "checkLibErrors b partsLibrary =
     (case checkLibErrors_loop partsLibrary (parts b) (errors b) False of
        (errs, circFlag) \<Rightarrow>
          b\<lparr>errors := (if circFlag then errs @ [InvalidCharsSummary] else errs)\<rparr>)"

text \<open>
  \<open>checkAllErrors\<close>. The argument is \<open>None\<close> for Python's \<open>None\<close> and \<open>Some l\<close> for a list;
  \<open>if(partsLibrary)\<close> holds for a non-empty list only.
\<close>

definition checkAllErrors :: "emnObj \<Rightarrow> string list option \<Rightarrow> error + emnObj" where
  "checkAllErrors b partsLibrary =
     ebind (checkHeightErrors b) (\<lambda>b1.
     ebind (checkNegErrors b1) (\<lambda>b2.
     ebind (checkClosedErrors b2) (\<lambda>b3.
     ebind (checkRefDesErrors b3) (\<lambda>b4.
     ebind (checkRoundCutout b4) (\<lambda>b5.
     (let b6 = checkEmpty b5;
          b7 = checkArcAngle b6
      in case partsLibrary of
           None \<Rightarrow> Inr b7
         | Some l \<Rightarrow> if l \<noteq> [] then Inr (checkLibErrors b7 l) else Inr b7))))))"

section \<open>Notions used in the statements\<close>

subsection \<open>The scanners on their own, and records with a bad number\<close>

text \<open>
  A run of constructor calls that stops at the first exception: \<open>emap f xs\<close> is the list
  of the objects built, or the first error.
\<close>

fun emap :: "('a \<Rightarrow> error + 'b) \<Rightarrow> 'a list \<Rightarrow> error + 'b list" where
  "emap f [] = Inr []"
| "emap f (x # xs) =
     (case f x of
        Inl e \<Rightarrow> Inl e
      | Inr y \<Rightarrow> (case emap f xs of Inl e \<Rightarrow> Inl e | Inr ys \<Rightarrow> Inr (y # ys)))"

text \<open>
  The section scanner of \<open>getShapes\<close> on its own: the lists \<open>currentLines\<close> that the loop
  hands to \<open>shape(...)\<close>, in order.
\<close>

fun shape_ends_sections ::
  "string \<Rightarrow> string list \<Rightarrow> string list \<Rightarrow> bool \<Rightarrow> string list list \<times> string list \<times> bool" where
  "shape_ends_sections line [] currentLines coordRange = ([], currentLines, coordRange)"
| "shape_ends_sections line (keyword # ks) currentLines coordRange =
     (if str_in keyword line
      then (case shape_ends_sections line ks [] False of
              (secs, currentLines2, coordRange2) \<Rightarrow> (currentLines # secs, currentLines2, coordRange2))
      else shape_ends_sections line ks currentLines coordRange)"

fun shape_sections_loop :: "string list \<Rightarrow> string list \<Rightarrow> bool \<Rightarrow> string list list" where
  "shape_sections_loop [] currentLines coordRange = []"
| "shape_sections_loop (line # rest) currentLines coordRange =
     (let coordRange1 =
            (if list_ex (\<lambda>keyword. str_in keyword line) SHAPE_STARTS then True else coordRange);
          currentLines1 = (if coordRange1 then currentLines @ [line] else currentLines)
      in case shape_ends_sections line SHAPE_ENDS currentLines1 coordRange1 of
           (secs, currentLines2, coordRange2) \<Rightarrow>
             secs @ shape_sections_loop rest currentLines2 coordRange2)"

definition shape_sections :: "string list \<Rightarrow> string list list" where
  "shape_sections emnData = shape_sections_loop emnData [] False"

text \<open>The scanner of \<open>getParts\<close> on its own: the pairs of lines handed to \<open>part(...)\<close>.\<close>

fun part_records_loop :: "string list \<Rightarrow> bool \<Rightarrow> string \<Rightarrow> bool \<Rightarrow> (string \<times> string) list" where
  "part_records_loop [] partsRange l0 firstLine = []"
| "part_records_loop (line # rest) partsRange l0 firstLine =
     (let partsRange1 = (if str_in PLACEMENT_END line then False else partsRange);
          partsRange2 = (if str_in PLACEMENT_START line then True else partsRange1)
      in if partsRange1
         then (if firstLine
               then part_records_loop rest partsRange2 line False
               else (l0, line) # part_records_loop rest partsRange2 l0 True)
         else part_records_loop rest partsRange2 l0 firstLine)"

definition part_records :: "string list \<Rightarrow> (string \<times> string) list" where
  "part_records emnData = part_records_loop emnData False [] True"

text \<open>The scanner of \<open>getDrills\<close> on its own: the lines handed to \<open>drill(...)\<close>.\<close>

fun drill_records_loop :: "string list \<Rightarrow> bool \<Rightarrow> string list" where
  "drill_records_loop [] drillRange = []"
| "drill_records_loop (line # rest) drillRange =
     (let drillRange1 = (if str_in DRILL_END line then False else drillRange);
          drillRange2 = (if str_in DRILL_START line then True else drillRange1)
      in if drillRange1
         then line # drill_records_loop rest drillRange2
         else drill_records_loop rest drillRange2)"

definition drill_records :: "string list \<Rightarrow> string list" where
  "drill_records emnData = drill_records_loop emnData False"

text \<open>
  The record lines with a numeric field that \<open>float\<close> rejects: a coordinate line of a
  shape section (four fields), the height line of a board, other or placement outline,
  the second line of a part record (fields 0, 1 and 3), a drill line (fields 0, 1, 2).
\<close>

definition bad_field :: "float_parser \<Rightarrow> string \<Rightarrow> nat list \<Rightarrow> bool" where
  "bad_field pf line ks =
     list_ex (\<lambda>k. k < length (str_split line) \<and> pf (str_split line ! k) = None) ks"

definition bad_coord_line :: "float_parser \<Rightarrow> string list \<Rightarrow> bool" where
  "bad_coord_line pf sData =
     list_ex (\<lambda>line. length (str_split line) = 4 \<and> bad_field pf line [0, 1, 2, 3]) sData"

definition bad_height_line :: "float_parser \<Rightarrow> string list \<Rightarrow> bool" where
  "bad_height_line pf sData =
     (1 < length sData \<and> str_split (sData ! 0) \<noteq> [] \<and>
      (let st = str_split (sData ! 0) ! 0 in
         st = BOARD_START \<and> pf (sData ! 1) = None
         \<or> (st = OTHER_START \<or> st = PLACE_OUTLINE_START) \<and> bad_field pf (sData ! 1) [1]))"

definition bad_record :: "float_parser \<Rightarrow> string list \<Rightarrow> bool" where
  "bad_record pf emnData =
     (list_ex (\<lambda>sData. bad_coord_line pf sData \<or> bad_height_line pf sData) (shape_sections emnData)
      \<or> list_ex (\<lambda>pData. bad_field pf (snd pData) [0, 1, 3]) (part_records emnData)
      \<or> list_ex (\<lambda>dData. bad_field pf dData [0, 1, 2]) (drill_records emnData))"

subsection \<open>Diagnostics\<close>

text \<open>
  A line containing \<open>.END_HEADER\<close> comes before the first line containing \<open>THOU\<close> or
  \<open>MM\<close>.
\<close>

definition units_missing :: "string list \<Rightarrow> bool" where
  "units_missing emnData =
     list_ex (str_in HEADER_END)
       (takeWhile (\<lambda>line. \<not> str_in ''THOU'' line \<and> \<not> str_in ''MM'' line) emnData)"

text \<open>The diagnostics that only \<open>checkLibErrors\<close> writes.\<close>

fun lib_diag :: "diag \<Rightarrow> bool" where
  "lib_diag (InvalidChars n r) = True"
| "lib_diag (NotInLibrary n) = True"
| "lib_diag InvalidCharsSummary = True"
| "lib_diag d = False"

text \<open>What \<open>shape.__str__\<close> formats for a shape that has an outline vertex.\<close>

definition shape_text_of :: "shape \<Rightarrow> shape_text" where
  "shape_text_of sh = (sType sh, xPos (outline sh ! 0), yPos (outline sh ! 0))"

text \<open>
  The height rule in the claim's words: a placement outline is flagged when its height
  is at most 0.026 in MM, or at most 1 in THOU.
\<close>

definition height_flagged :: "string \<Rightarrow> shape \<Rightarrow> bool" where
  "height_flagged u sh =
     (sType sh = ''.PLACE_OUTLINE'' \<and> (u = ''MM'' \<and> height sh \<le> 0.026 \<or> u = ''THOU'' \<and> height sh \<le> 1))"



text \<open>
  What the arc angle check writes at position \<open>i\<close> of a sub-shape \<open>s\<close> (its first vertex
  already dropped), with circular indices: point 1 is vertex \<open>i-1\<close>, the vertex the two
  segments share; \<open>phi0\<close> is the arc angle stored on point 1 and \<open>phi1\<close> the one stored on
  vertex \<open>i\<close>; the diagnostic carries the coordinates of point 1.
\<close>

definition arc_diag_at :: "vertex list \<Rightarrow> nat \<Rightarrow> diag list" where
  "arc_diag_at s i =
     (let n = length s;
          point0 = s ! ((i + n - 2) mod n);
          point1 = s ! ((i + n - 1) mod n);
          point2 = s ! i;
          delta = arc_delta (arc point1) (arc point2) point0 point1 point2
      in if (arc point1 \<noteq> 0 \<or> arc point2 \<noteq> 0)
            \<and> (isclose delta 0 0.01 0.01 \<or> isclose delta tau 0.01 0.01)
         then [InfinitesimalArc (xPos point1) (yPos point1)]
         else [])"

section \<open>Example inputs\<close>

text \<open>The list \<open>[cutout, xPos, yPos, arc]\<close>, written in one line.\<close>

definition mk_coord :: "real \<Rightarrow> real \<Rightarrow> real \<Rightarrow> real \<Rightarrow> vertex" where
  "mk_coord c x y a = \<lparr>cutout = c, xPos = x, yPos = y, arc = a\<rparr>"

text \<open>Three vertices on a line, and a closed square, all with arc angle 0.\<close>

definition colinear_outline :: "vertex list" where
  "colinear_outline =
     [\<lparr>cutout = 0, xPos = 0, yPos = 0, arc = 0\<rparr>,
      \<lparr>cutout = 0, xPos = 1, yPos = 0, arc = 0\<rparr>,
      \<lparr>cutout = 0, xPos = 2, yPos = 0, arc = 0\<rparr>]"

definition square_outline :: "vertex list" where
  "square_outline =
     [\<lparr>cutout = 0, xPos = 0, yPos = 0, arc = 0\<rparr>,
      \<lparr>cutout = 0, xPos = 1, yPos = 0, arc = 0\<rparr>,
      \<lparr>cutout = 0, xPos = 1, yPos = 1, arc = 0\<rparr>,
      \<lparr>cutout = 0, xPos = 0, yPos = 1, arc = 0\<rparr>,
      \<lparr>cutout = 0, xPos = 0, yPos = 0, arc = 0\<rparr>]"

text \<open>
  A closed outline of two half circles, from (0,0) over (2,0) to (4,0), and a straight
  segment back.
\<close>

definition two_arcs_outline :: "vertex list" where
  "two_arcs_outline =
     [mk_coord 0 0 0 0, mk_coord 0 2 0 180, mk_coord 0 4 0 180, mk_coord 0 0 0 0]"

text \<open>
  A file with two shapes: a board outline with a circular cutout, then a via keepout
  without cutouts; and the board \<open>emnObj.__init__\<close> builds from it.
\<close>

definition round_cutout_file :: "string list" where
  "round_cutout_file =
     [''.BOARD_OUTLINE UNOWNED'', ''1.6'',
      ''0 0 0 0'', ''0 9 0 0'', ''0 9 9 0'', ''0 0 0 0'',
      ''1 5 5 0'', ''1 6 5 360'',
      ''.END_BOARD_OUTLINE'',
      ''.VIA_KEEPOUT UNOWNED'',
      ''0 1 1 0'', ''0 2 1 0'', ''0 2 2 0'', ''0 1 1 0'',
      ''.END_VIA_KEEPOUT'']"

definition round_cutout_outline :: shape where
  "round_cutout_outline =
     \<lparr>sType = ''.BOARD_OUTLINE'',
      coordinates =
        [[mk_coord 0 0 0 0, mk_coord 0 9 0 0, mk_coord 0 9 9 0, mk_coord 0 0 0 0],
         [mk_coord 1 5 5 0, mk_coord 1 6 5 360]],
      outline = [mk_coord 0 0 0 0, mk_coord 0 9 0 0, mk_coord 0 9 9 0, mk_coord 0 0 0 0],
      cutouts = [[mk_coord 1 5 5 0, mk_coord 1 6 5 360]],
      height = 1.6\<rparr>"

definition via_keepout :: shape where
  "via_keepout =
     \<lparr>sType = ''.VIA_KEEPOUT'',
      coordinates = [[mk_coord 0 1 1 0, mk_coord 0 2 1 0, mk_coord 0 2 2 0, mk_coord 0 1 1 0]],
      outline = [mk_coord 0 1 1 0, mk_coord 0 2 1 0, mk_coord 0 2 2 0, mk_coord 0 1 1 0],
      cutouts = [],
      height = 0\<rparr>"

definition round_cutout_board :: emnObj where
  "round_cutout_board =
     \<lparr>fileName = ''board.emn'', parts = [], shapes = [round_cutout_outline, via_keepout],
      errors = [], units = ''ERROR'', drills = []\<rparr>"

text \<open>A route keepout section as IDF 3.0 writes it.\<close>

definition route_keepout_file :: "string list" where
  "route_keepout_file =
     [''.ROUTE_KEEPOUT ECAD'', ''ALL'', ''0 10 10 0'', ''0 20 10 0'', ''0 20 20 0'',
      ''0 10 10 0'', ''.END_ROUTE_KEEPOUT'']"

text \<open>A file with a header only, the board built from it, and a file with a bad number.\<close>

definition header_only_file :: "string list" where
  "header_only_file =
     [''.HEADER'', ''BOARD_FILE 3.0 ecad 2020/01/01 1'', ''sample_board MM'', ''.END_HEADER'']"

definition header_only_board :: emnObj where
  "header_only_board =
     \<lparr>fileName = ''good.emn'', parts = [], shapes = [], errors = [], units = ''MM'', drills = []\<rparr>"

definition bad_vertex_file :: "string list" where
  "bad_vertex_file =
     [''.BOARD_OUTLINE UNOWNED'', ''1.6'', ''0 0 0 0'', ''0 9 x 0'', ''.END_BOARD_OUTLINE'']"

text \<open>A file whose header names no units, and the board \<open>emnObj.__init__\<close> builds from it.\<close>

definition no_units_file :: "string list" where
  "no_units_file =
     [''.HEADER'', ''BOARD_FILE 3.0 ecad 2020/01/01 1'', ''sample_board'', ''.END_HEADER'']"

definition no_units_board :: emnObj where
  "no_units_board =
     \<lparr>fileName = ''board.emn'', parts = [], shapes = [], errors = [CouldNotFindUnits],
      units = ''ERROR'', drills = []\<rparr>"

text \<open>A placement outline of the given height over a unit square.\<close>

definition place_outline :: "real \<Rightarrow> shape" where
  "place_outline h =
     \<lparr>sType = ''.PLACE_OUTLINE'',
      coordinates = [square_outline], outline = square_outline, cutouts = [], height = h\<rparr>"

definition height_board :: "string \<Rightarrow> real list \<Rightarrow> emnObj" where
  "height_board u hs =
     \<lparr>fileName = ''board.emn'', parts = [], shapes = map place_outline hs, errors = [],
      units = u, drills = []\<rparr>"

text \<open>A file whose placement outline section has a height line and no coordinate line.\<close>

definition empty_place_outline_file :: "string list" where
  "empty_place_outline_file =
     [''.HEADER'', ''BOARD_FILE 3.0 ecad 2020/01/01 1'', ''sample_board MM'', ''.END_HEADER'',
      ''.PLACE_OUTLINE UNOWNED'', ''TOP 0.0'', ''.END_PLACE_OUTLINE'']"

definition empty_place_outline_board :: emnObj where
  "empty_place_outline_board =
     \<lparr>fileName = ''board.emn'', parts = [],
      shapes = [\<lparr>sType = ''.PLACE_OUTLINE'', coordinates = [[]], outline = [], cutouts = [],
                 height = 0\<rparr>],
      errors = [], units = ''MM'', drills = []\<rparr>"





text \<open>A board with one part and no shape; the part's name has an underscore.\<close>

definition lib_board :: emnObj where
  "lib_board =
     \<lparr>fileName = ''w.emn'',
      parts = [\<lparr>part_coordinates = (1, 1, 0), side = ''TOP'', name = ''cap_0603'', refDes = ''C1''\<rparr>],
      shapes = [], errors = [], units = ''MM'', drills = []\<rparr>"

text \<open>A placement section whose first record line ends right after a closing quote.\<close>

definition quoted_placement_file :: "string list" where
  "quoted_placement_file =
     [''.PLACEMENT'',
      [CHR 0x22] @ ''cap_0603'' @ [CHR 0x22] @ '' '' @ [CHR 0x22] @ ''10uF'' @ [CHR 0x22] @ [CHR 0x0A],
      ''10.0 20.0 0.0 0.0 TOP PLACED'',
      ''.END_PLACEMENT'']"

definition quoted_placement_board :: emnObj where
  "quoted_placement_board =
     \<lparr>fileName = ''board.emn'',
      parts = [\<lparr>part_coordinates = (10, 20, 0), side = ''TOP'', name = ''cap_0603'', refDes = []\<rparr>],
      shapes = [], errors = [], units = ''ERROR'', drills = []\<rparr>"

section \<open>Basic facts\<close>

lemmas marker_defs =
  BOARD_START_def BOARD_END_def DRILL_START_def DRILL_END_def HEADER_START_def HEADER_END_def
  OTHER_START_def OTHER_END_def PLACE_KEEPOUT_START_def PLACE_KEEPOUT_END_def
  PLACE_OUTLINE_START_def PLACE_OUTLINE_END_def PLACEMENT_START_def PLACEMENT_END_def
  ROUTE_START_def ROUTE_END_def ROUTE_KEEPOUT_START_def ROUTE_KEEPOUT_END_def
  VIA_KEEPOUT_START_def VIA_KEEPOUT_END_def SHAPE_STARTS_def SHAPE_ENDS_def

lemma ebind_Inl [simp]: "ebind (Inl e) f = Inl e"
  by (simp add: ebind_def)

lemma ebind_Inr [simp]: "ebind (Inr x) f = f x"
  by (simp add: ebind_def)

lemma ebind_eq_Inr: "ebind m f = Inr y \<longleftrightarrow> (\<exists>x. m = Inr x \<and> f x = Inr y)"
  by (cases m) simp_all

lemma isl_ebind: "isl m \<Longrightarrow> isl (ebind m f)"
  by (cases m) simp_all

section \<open>Loops that append diagnostics\<close>

lemma for_each_appends:
  "for_each body xs errs = Inr r \<Longrightarrow>
   \<exists>ds. r = errs @ ds \<and> (\<forall>d\<in>set ds. \<exists>x\<in>set xs. \<exists>dx. body x = Inr dx \<and> d \<in> set dx)"
proof (induction xs arbitrary: errs)
  case Nil
  then show ?case by simp
next
  case (Cons x xs)
  from Cons.prems obtain dx where dx: "body x = Inr dx" and rest: "for_each body xs (errs @ dx) = Inr r"
    by (auto split: sum.splits)
  from Cons.IH[OF rest] obtain ds where ds: "r = (errs @ dx) @ ds"
    and mem: "\<forall>d\<in>set ds. \<exists>x\<in>set xs. \<exists>dx. body x = Inr dx \<and> d \<in> set dx" by blast
  have "r = errs @ (dx @ ds)" using ds by simp
  moreover have "\<forall>d\<in>set (dx @ ds). \<exists>y\<in>set (x # xs). \<exists>dy. body y = Inr dy \<and> d \<in> set dy"
    using dx mem by auto
  ultimately show ?case by blast
qed


lemma checkHeightErrors_loop_appends:
  "checkHeightErrors_loop u shs errs hf = Inr (r, hf') \<Longrightarrow>
   \<exists>ds. r = errs @ ds \<and> (\<forall>d\<in>set ds. \<not> lib_diag d)"
proof (induction shs arbitrary: errs hf)
  case Nil
  then show ?case by simp
next
  case (Cons sh shs)
  show ?case
  proof (cases "heightError u sh")
    case True
    with Cons.prems obtain str where
      rest: "checkHeightErrors_loop u shs (errs @ [TooShort str]) True = Inr (r, hf')"
      by (auto split: sum.splits)
    from Cons.IH[OF rest] obtain ds where "r = (errs @ [TooShort str]) @ ds" "\<forall>d\<in>set ds. \<not> lib_diag d"
      by blast
    then have "r = errs @ (TooShort str # ds) \<and> (\<forall>d\<in>set (TooShort str # ds). \<not> lib_diag d)"
      by simp
    then show ?thesis by blast
  next
    case False
    with Cons.prems have "checkHeightErrors_loop u shs errs hf = Inr (r, hf')" by simp
    from Cons.IH[OF this] show ?thesis .
  qed
qed

lemma checkHeightErrors_appends:
  assumes "checkHeightErrors b = Inr b'"
  shows "\<exists>ds. b' = b\<lparr>errors := errors b @ ds\<rparr> \<and> (\<forall>d\<in>set ds. \<not> lib_diag d)"
proof -
  from assms obtain r hf where
    loop: "checkHeightErrors_loop (units b) (shapes b) (errors b) False = Inr (r, hf)"
    and b': "b' = b\<lparr>errors := (if hf then r @ [RecommendKeepout] else r)\<rparr>"
    by (auto simp: checkHeightErrors_def ebind_eq_Inr)
  from checkHeightErrors_loop_appends[OF loop] obtain ds where
    ds: "r = errors b @ ds" "\<forall>d\<in>set ds. \<not> lib_diag d" by blast
  let ?ds = "if hf then ds @ [RecommendKeepout] else ds"
  have "b' = b\<lparr>errors := errors b @ ?ds\<rparr>" using b' ds by simp
  moreover have "\<forall>d\<in>set ?ds. \<not> lib_diag d" using ds by simp
  ultimately show ?thesis by blast
qed

lemma checkNegErrors_appends:
  assumes "checkNegErrors b = Inr b'"
  shows "\<exists>ds. b' = b\<lparr>errors := errors b @ ds\<rparr> \<and> (\<forall>d\<in>set ds. \<not> lib_diag d)"
proof -
  let ?pd = "concat (map checkNeg_part (parts b)) @ concat (map checkNeg_drill (drills b))"
  from assms obtain r where
    loop: "for_each checkNeg_shape (shapes b) (errors b) = Inr r"
    and b': "b' = b\<lparr>errors := r @ ?pd\<rparr>"
    by (auto simp: checkNegErrors_def ebind_eq_Inr)
  from for_each_appends[OF loop] obtain ds where
    ds: "r = errors b @ ds"
    "\<forall>d\<in>set ds. \<exists>x\<in>set (shapes b). \<exists>dx. checkNeg_shape x = Inr dx \<and> d \<in> set dx" by blast
  have "\<not> lib_diag d" if "d \<in> set ds" for d
  proof -
    from ds(2) that obtain x dx where "checkNeg_shape x = Inr dx" "d \<in> set dx" by blast
    then show ?thesis
      by (auto simp: checkNeg_shape_def ebind_eq_Inr split: if_splits)
  qed
  moreover have "\<not> lib_diag d" if "d \<in> set ?pd" for d
    using that by (auto simp: checkNeg_part_def checkNeg_drill_def split: if_splits)
  ultimately have "\<forall>d\<in>set (ds @ ?pd). \<not> lib_diag d" by auto
  moreover have "b' = b\<lparr>errors := errors b @ (ds @ ?pd)\<rparr>" using b' ds by simp
  ultimately show ?thesis by blast
qed

lemma checkClosed_sub_kinds:
  "checkClosed_sub sh s = Inr dx \<Longrightarrow> d \<in> set dx \<Longrightarrow> \<not> lib_diag d"
  by (auto simp: checkClosed_sub_def ebind_eq_Inr split: if_splits)

lemma checkClosedErrors_appends:
  assumes "checkClosedErrors b = Inr b'"
  shows "\<exists>ds. b' = b\<lparr>errors := errors b @ ds\<rparr> \<and> (\<forall>d\<in>set ds. \<not> lib_diag d)"
proof -
  from assms obtain r where
    loop: "for_each checkClosed_shape (shapes b) (errors b) = Inr r"
    and b': "b' = b\<lparr>errors := r\<rparr>"
    by (auto simp: checkClosedErrors_def ebind_eq_Inr)
  from for_each_appends[OF loop] obtain ds where
    ds: "r = errors b @ ds"
    "\<forall>d\<in>set ds. \<exists>x\<in>set (shapes b). \<exists>dx. checkClosed_shape x = Inr dx \<and> d \<in> set dx" by blast
  have "\<not> lib_diag d" if "d \<in> set ds" for d
  proof -
    from ds(2) that obtain x dx where x: "checkClosed_shape x = Inr dx" "d \<in> set dx" by blast
    from x(1) have "for_each (checkClosed_sub x) (toCheck x) [] = Inr dx"
      by (simp add: checkClosed_shape_def)
    from for_each_appends[OF this] x(2) obtain s ds' where
      "checkClosed_sub x s = Inr ds'" "d \<in> set ds'" by auto
    then show ?thesis by (rule checkClosed_sub_kinds)
  qed
  with b' ds(1) show ?thesis by blast
qed

lemma checkRefDesErrors_appends:
  assumes "checkRefDesErrors b = Inr b'"
  shows "\<exists>ds. b' = b\<lparr>errors := errors b @ ds\<rparr> \<and> (\<forall>d\<in>set ds. \<not> lib_diag d)"
proof -
  from assms obtain r where
    loop: "for_each checkRefDes_part (parts b) (errors b) = Inr r"
    and b': "b' = b\<lparr>errors := r\<rparr>"
    by (auto simp: checkRefDesErrors_def ebind_eq_Inr)
  from for_each_appends[OF loop] obtain ds where
    ds: "r = errors b @ ds"
    "\<forall>d\<in>set ds. \<exists>x\<in>set (parts b). \<exists>dx. checkRefDes_part x = Inr dx \<and> d \<in> set dx" by blast
  have "\<not> lib_diag d" if "d \<in> set ds" for d
  proof -
    from ds(2) that obtain x dx where "checkRefDes_part x = Inr dx" "d \<in> set dx" by blast
    then show ?thesis
      by (auto simp: checkRefDes_part_def ebind_eq_Inr split: if_splits)
  qed
  with b' ds(1) show ?thesis by blast
qed

lemma checkRoundCutout_appends:
  assumes "checkRoundCutout b = Inr b'"
  shows "\<exists>ds. b' = b\<lparr>errors := errors b @ ds\<rparr> \<and> (\<forall>d\<in>set ds. \<not> lib_diag d)"
proof -
  obtain tc cur where scan: "checkRoundCutout_scan (shapes b) [] None = (tc, cur)"
    by (cases "checkRoundCutout_scan (shapes b) [] None")
  with assms obtain r where
    loop: "for_each (checkRoundCutout_sub cur) tc (errors b) = Inr r"
    and b': "b' = b\<lparr>errors := r\<rparr>"
    by (auto simp: checkRoundCutout_def ebind_eq_Inr)
  from for_each_appends[OF loop] obtain ds where
    ds: "r = errors b @ ds"
    "\<forall>d\<in>set ds. \<exists>x\<in>set tc. \<exists>dx. checkRoundCutout_sub cur x = Inr dx \<and> d \<in> set dx" by blast
  have "\<not> lib_diag d" if "d \<in> set ds" for d
  proof -
    from ds(2) that obtain x dx where "checkRoundCutout_sub cur x = Inr dx" "d \<in> set dx" by blast
    then show ?thesis
      by (auto simp: checkRoundCutout_sub_def ebind_eq_Inr split: if_splits option.splits)
  qed
  with b' ds(1) show ?thesis by blast
qed

lemma checkEmpty_appends:
  "\<exists>ds. checkEmpty b = b\<lparr>errors := errors b @ ds\<rparr> \<and> (\<forall>d\<in>set ds. \<not> lib_diag d)"
proof (cases "shapes b = []")
  case True
  then have "checkEmpty b = b\<lparr>errors := errors b @ [NoShapes]\<rparr> \<and> (\<forall>d\<in>set [NoShapes]. \<not> lib_diag d)"
    by (simp add: checkEmpty_def)
  then show ?thesis by blast
next
  case False
  then have "checkEmpty b = b\<lparr>errors := errors b @ []\<rparr> \<and> (\<forall>d\<in>set []. \<not> lib_diag d)"
    by (simp add: checkEmpty_def)
  then show ?thesis by blast
qed

lemma checkArcAngle_vertex_kinds: "d \<in> set (checkArcAngle_vertex s i) \<Longrightarrow> \<not> lib_diag d"
  by (auto simp: checkArcAngle_vertex_def Let_def split: if_splits)

lemma checkArcAngle_sub_kinds: "d \<in> set (checkArcAngle_sub s) \<Longrightarrow> \<not> lib_diag d"
  by (auto simp: checkArcAngle_sub_def Let_def split: if_splits dest: checkArcAngle_vertex_kinds)

lemma checkArcAngle_appends:
  "\<exists>ds. checkArcAngle b = b\<lparr>errors := errors b @ ds\<rparr> \<and> (\<forall>d\<in>set ds. \<not> lib_diag d)"
proof -
  let ?ds = "concat (map (\<lambda>currentShape. concat (map checkArcAngle_sub (toCheck currentShape)))
                    (shapes b))"
  have "\<forall>d\<in>set ?ds. \<not> lib_diag d" by (auto dest: checkArcAngle_sub_kinds)
  moreover have "checkArcAngle b = b\<lparr>errors := errors b @ ?ds\<rparr>" by (simp add: checkArcAngle_def)
  ultimately show ?thesis by blast
qed

text \<open>The seven checks that do not read the library.\<close>

lemma checkAllErrors_None_appends:
  assumes "checkAllErrors b None = Inr b'"
  shows "\<exists>ds. b' = b\<lparr>errors := errors b @ ds\<rparr> \<and> (\<forall>d\<in>set ds. \<not> lib_diag d)"
proof -
  from assms obtain b1 b2 b3 b4 b5 where
    s1: "checkHeightErrors b = Inr b1" and s2: "checkNegErrors b1 = Inr b2"
    and s3: "checkClosedErrors b2 = Inr b3" and s4: "checkRefDesErrors b3 = Inr b4"
    and s5: "checkRoundCutout b4 = Inr b5" and s6: "b' = checkArcAngle (checkEmpty b5)"
    by (auto simp: checkAllErrors_def ebind_eq_Inr Let_def)
  from checkHeightErrors_appends[OF s1] obtain d1 where
    e1: "b1 = b\<lparr>errors := errors b @ d1\<rparr>" and k1: "\<forall>d\<in>set d1. \<not> lib_diag d" by blast
  from checkNegErrors_appends[OF s2] obtain d2 where
    e2: "b2 = b1\<lparr>errors := errors b1 @ d2\<rparr>" and k2: "\<forall>d\<in>set d2. \<not> lib_diag d" by blast
  from checkClosedErrors_appends[OF s3] obtain d3 where
    e3: "b3 = b2\<lparr>errors := errors b2 @ d3\<rparr>" and k3: "\<forall>d\<in>set d3. \<not> lib_diag d" by blast
  from checkRefDesErrors_appends[OF s4] obtain d4 where
    e4: "b4 = b3\<lparr>errors := errors b3 @ d4\<rparr>" and k4: "\<forall>d\<in>set d4. \<not> lib_diag d" by blast
  from checkRoundCutout_appends[OF s5] obtain d5 where
    e5: "b5 = b4\<lparr>errors := errors b4 @ d5\<rparr>" and k5: "\<forall>d\<in>set d5. \<not> lib_diag d" by blast
  from checkEmpty_appends[of b5] obtain d6 where
    e6: "checkEmpty b5 = b5\<lparr>errors := errors b5 @ d6\<rparr>" and k6: "\<forall>d\<in>set d6. \<not> lib_diag d" by blast
  from checkArcAngle_appends[of "checkEmpty b5"] obtain d7 where
    e7: "checkArcAngle (checkEmpty b5) = (checkEmpty b5)\<lparr>errors := errors (checkEmpty b5) @ d7\<rparr>"
    and k7: "\<forall>d\<in>set d7. \<not> lib_diag d" by blast
  let ?ds = "d1 @ d2 @ d3 @ d4 @ d5 @ d6 @ d7"
  have "b' = b\<lparr>errors := errors b @ ?ds\<rparr>"
    using s6 e1 e2 e3 e4 e5 e6 e7 by simp
  moreover have "\<forall>d\<in>set ?ds. \<not> lib_diag d" using k1 k2 k3 k4 k5 k6 k7 by auto
  ultimately show ?thesis by blast
qed

section \<open>The arc angle check\<close>

lemma pynth_circular:
  assumes "i < length s" "k \<le> length s"
  shows "pynth s (int i - int k) = s ! ((i + length s - k) mod length s)"
proof (cases "k \<le> i")
  case True
  have "i + length s - k = (i - k) + length s" using True by arith
  then have "(i + length s - k) mod length s = (i - k) mod length s" by simp
  also have "\<dots> = i - k" using assms(1) by (intro mod_less) arith
  finally have m: "(i + length s - k) mod length s = i - k" .
  have "nat (int i - int k) = i - k" by arith
  then have "pynth s (int i - int k) = s ! (i - k)"
    using True by (simp add: pynth_def)
  with m show ?thesis by simp
next
  case False
  then have k: "i < k" by simp
  have "i + length s - k < length s" using k assms by arith
  then have m: "(i + length s - k) mod length s = i + length s - k" by (rule mod_less)
  have "nat (int (length s) + (int i - int k)) = i + length s - k"
    using k assms by arith
  then have "pynth s (int i - int k) = s ! (i + length s - k)"
    using k by (simp add: pynth_def)
  with m show ?thesis by simp
qed

lemma pynth_mem:
  assumes "i < length s" "k \<le> length s"
  shows "pynth s (int i - int k) \<in> set s"
proof -
  have "0 < length s" using assms(1) by arith
  then have "(i + length s - k) mod length s < length s" by (rule mod_less_divisor)
  then show ?thesis using pynth_circular[OF assms] by simp
qed

text \<open>
  C8. A vertex at which both arc angles \<open>phi0\<close> and \<open>phi1\<close> are 0 is skipped; a sub-shape
  whose arc angles are all 0 gives no diagnostic; in particular the three vertices
  (0,0), (1,0), (2,0) with arc angle 0 give none.
\<close>

theorem straight_vertex_skipped:
  "(arc (pynth s (int i - 1)) = 0 \<and> arc (pynth s (int i)) = 0 \<longrightarrow> checkArcAngle_vertex s i = [])
   \<and> ((\<forall>v\<in>set s0. arc v = 0) \<longrightarrow> checkArcAngle_sub s0 = [])
   \<and> checkArcAngle_sub colinear_outline = []"
proof (intro conjI impI)
  assume "arc (pynth s (int i - 1)) = 0 \<and> arc (pynth s (int i)) = 0"
  then show "checkArcAngle_vertex s i = []"
    by (simp add: checkArcAngle_vertex_def)
next
  assume zero: "\<forall>v\<in>set s0. arc v = 0"
  let ?s = "drop 1 s0"
  have z: "\<forall>v\<in>set ?s. arc v = 0" using zero by (auto dest: in_set_dropD)
  have "checkArcAngle_vertex ?s i = []" if "i < length ?s" for i
  proof -
    have "pynth ?s (int i - int 1) \<in> set ?s" using that by (intro pynth_mem) simp_all
    moreover have "pynth ?s (int i - int 0) \<in> set ?s" using that by (intro pynth_mem) simp_all
    ultimately have "arc (pynth ?s (int i - 1)) = 0" "arc (pynth ?s (int i)) = 0"
      using z by simp_all
    then show ?thesis by (simp add: checkArcAngle_vertex_def)
  qed
  then have "concat (map (checkArcAngle_vertex ?s) [0..<length ?s]) = []" by simp
  then show "checkArcAngle_sub s0 = []" by (simp add: checkArcAngle_sub_def Let_def)
next
  show "checkArcAngle_sub colinear_outline = []"
    by (simp add: checkArcAngle_sub_def colinear_outline_def)
qed

theorem straight_vertex_skipped_witness:
  "arc (pynth (drop 1 square_outline) (int 0 - 1)) = 0 \<and> arc (pynth (drop 1 square_outline) (int 0)) = 0
   \<and> checkArcAngle_vertex (drop 1 square_outline) 0 = []
   \<and> list_all (\<lambda>v. arc v = 0) square_outline \<and> checkArcAngle_sub square_outline = []"
proof -
  have a: "arc (pynth (drop 1 square_outline) (int 0 - 1)) = 0 \<and> arc (pynth (drop 1 square_outline) (int 0)) = 0"
    by (simp add: square_outline_def pynth_def)
  have b: "\<forall>v\<in>set square_outline. arc v = 0" by (simp add: square_outline_def)
  from a b straight_vertex_skipped[of "drop 1 square_outline" 0 square_outline]
  show ?thesis by (simp add: list_all_iff)
qed

section \<open>The arc angle check on two half circles\<close>

lemma tau_pos: "0 < tau"
  by (simp add: tau_def)

lemma fmod_small:
  assumes "0 \<le> x" "x < tau"
  shows "fmod x tau = x"
proof -
  have "0 \<le> x / tau" "x / tau < 1" using assms tau_pos by simp_all
  then have "\<lfloor>x / tau\<rfloor> = 0" by linarith
  then show ?thesis using \<open>0 \<le> x / tau\<close> by (simp add: fmod_def)
qed

lemma fmod_plus_tau:
  assumes "0 \<le> x" "x < tau"
  shows "fmod (x + tau) tau = x"
proof -
  have eq: "(x + tau) / tau = x / tau + 1" using tau_pos by (simp add: add_divide_distrib)
  have "0 \<le> x / tau" "x / tau < 1" using assms tau_pos by simp_all
  then have "\<lfloor>x / tau + 1\<rfloor> = 1" by linarith
  moreover have "0 \<le> x / tau + 1" using \<open>0 \<le> x / tau\<close> by simp
  ultimately show ?thesis by (simp add: fmod_def eq)
qed

lemma fmod_tau_tau: "fmod tau tau = 0"
  using fmod_plus_tau[of 0] tau_pos by simp

lemma pi_lt_tau: "pi < tau"
  by (simp add: tau_def)

lemma atan2_pos_x_axis: "0 < x \<Longrightarrow> atan2 0 x = 0"
  by (simp add: atan2_def)

lemma atan2_neg_x_axis: "x < 0 \<Longrightarrow> atan2 0 x = pi"
  by (simp add: atan2_def)

lemma radians_180: "radians 180 = pi"
  by (simp add: radians_def)

lemma radians_0: "radians 0 = 0"
  by (simp add: radians_def)

lemma isclose_0_0: "isclose 0 0 0.01 0.01"
  by (simp add: isclose_def)

lemma quarter_not_close: "\<not> isclose (pi / 2) 0 0.01 0.01 \<and> \<not> isclose (pi / 2) tau 0.01 0.01"
proof -
  have p: "2 \<le> pi" by (rule pi_ge_two)
  have a1: "\<bar>pi / 2 - 0\<bar> = pi / 2" using p by simp
  have a2: "\<bar>pi / 2 - tau\<bar> = 3 * pi / 2" using p by (simp add: tau_def abs_if)
  have m1: "max (0.01 * max \<bar>pi / 2\<bar> \<bar>0\<bar>) 0.01 < pi / 2" using p by (simp add: max_def)
  have m2: "max (0.01 * max \<bar>pi / 2\<bar> \<bar>tau\<bar>) 0.01 < 3 * pi / 2"
    using p by (simp add: max_def tau_def)
  show ?thesis unfolding isclose_def a1 a2 using m1 m2 by simp
qed

lemma quarter_fmod: "fmod (pi / 2) tau = pi / 2"
  using pi_gt_zero by (intro fmod_small) (simp_all add: tau_def)

lemma mk_coord_fields [simp]:
  "cutout (mk_coord c x y a) = c" "xPos (mk_coord c x y a) = x"
  "yPos (mk_coord c x y a) = y" "arc (mk_coord c x y a) = a"
  by (simp_all add: mk_coord_def)

lemma pynth3:
  "pynth [a, b, c] (int 0 - 2) = b" "pynth [a, b, c] (int 0 - 1) = c" "pynth [a, b, c] (int 0) = a"
  "pynth [a, b, c] (int 1 - 2) = c" "pynth [a, b, c] (int 1 - 1) = a" "pynth [a, b, c] (int 1) = b"
  "pynth [a, b, c] (int 2 - 2) = a" "pynth [a, b, c] (int 2 - 1) = b" "pynth [a, b, c] (int 2) = c"
  by (simp_all add: pynth_def)

lemma two_arcs_delta_1:
  "arc_delta 180 180 (mk_coord 0 0 0 0) (mk_coord 0 2 0 180) (mk_coord 0 4 0 180) = 0"
proof -
  have al0: "atan2 (yPos (mk_coord 0 0 0 0) - yPos (mk_coord 0 2 0 180))
                   (xPos (mk_coord 0 0 0 0) - xPos (mk_coord 0 2 0 180)) = pi"
    by (simp add: atan2_neg_x_axis)
  have al1: "atan2 (yPos (mk_coord 0 4 0 180) - yPos (mk_coord 0 2 0 180))
                   (xPos (mk_coord 0 4 0 180) - xPos (mk_coord 0 2 0 180)) = 0"
    by (simp add: atan2_pos_x_axis)
  have a0: "fmod (pi + tau) tau = pi" using pi_gt_zero pi_lt_tau by (intro fmod_plus_tau) simp_all
  have a1: "fmod (0 + tau) tau = 0" by (simp add: fmod_tau_tau)
  have d: "\<bar>0 - pi / 2 - (pi + pi / 2)\<bar> = tau" using pi_gt_zero by (simp add: tau_def)
  show ?thesis
    by (simp only: arc_delta_def Let_def al0 al1 radians_180 a0 a1 d fmod_tau_tau)
qed

lemma two_arcs_delta_0:
  "arc_delta 0 180 (mk_coord 0 4 0 180) (mk_coord 0 0 0 0) (mk_coord 0 2 0 180) = pi / 2"
proof -
  have al0: "atan2 (yPos (mk_coord 0 4 0 180) - yPos (mk_coord 0 0 0 0))
                   (xPos (mk_coord 0 4 0 180) - xPos (mk_coord 0 0 0 0)) = 0"
    by (simp add: atan2_pos_x_axis)
  have al1: "atan2 (yPos (mk_coord 0 2 0 180) - yPos (mk_coord 0 0 0 0))
                   (xPos (mk_coord 0 2 0 180) - xPos (mk_coord 0 0 0 0)) = 0"
    by (simp add: atan2_pos_x_axis)
  have a1: "fmod (0 + tau) tau = 0" by (simp add: fmod_tau_tau)
  have d: "\<bar>0 - pi / 2 - (0 + 0 / 2)\<bar> = pi / 2" using pi_gt_zero by simp
  show ?thesis
    by (simp only: arc_delta_def Let_def al0 al1 radians_180 radians_0 a1 d quarter_fmod)
qed

lemma two_arcs_delta_2:
  "arc_delta 180 0 (mk_coord 0 2 0 180) (mk_coord 0 4 0 180) (mk_coord 0 0 0 0) = pi / 2"
proof -
  have al0: "atan2 (yPos (mk_coord 0 2 0 180) - yPos (mk_coord 0 4 0 180))
                   (xPos (mk_coord 0 2 0 180) - xPos (mk_coord 0 4 0 180)) = pi"
    by (simp add: atan2_neg_x_axis)
  have al1: "atan2 (yPos (mk_coord 0 0 0 0) - yPos (mk_coord 0 4 0 180))
                   (xPos (mk_coord 0 0 0 0) - xPos (mk_coord 0 4 0 180)) = pi"
    by (simp add: atan2_neg_x_axis)
  have a0: "fmod (pi + tau) tau = pi" using pi_gt_zero pi_lt_tau by (intro fmod_plus_tau) simp_all
  have d: "\<bar>pi - 0 / 2 - (pi + pi / 2)\<bar> = pi / 2" using pi_gt_zero by simp
  show ?thesis
    by (simp only: arc_delta_def Let_def al0 al1 radians_180 radians_0 a0 d quarter_fmod)
qed

lemma two_arcs_dropped:
  "drop 1 two_arcs_outline = [mk_coord 0 2 0 180, mk_coord 0 4 0 180, mk_coord 0 0 0 0]"
  by (simp add: two_arcs_outline_def)

lemma two_arcs_vertex_0: "checkArcAngle_vertex (drop 1 two_arcs_outline) 0 = []"
  using quarter_not_close
  by (simp only: checkArcAngle_vertex_def Let_def two_arcs_dropped pynth3 mk_coord_fields
      two_arcs_delta_0) simp

lemma two_arcs_vertex_1: "checkArcAngle_vertex (drop 1 two_arcs_outline) 1 = [InfinitesimalArc 2 0]"
  using isclose_0_0
  by (simp only: checkArcAngle_vertex_def Let_def two_arcs_dropped pynth3 mk_coord_fields
      two_arcs_delta_1) simp

lemma two_arcs_vertex_2: "checkArcAngle_vertex (drop 1 two_arcs_outline) 2 = []"
  using quarter_not_close
  by (simp only: checkArcAngle_vertex_def Let_def two_arcs_dropped pynth3 mk_coord_fields
      two_arcs_delta_2) simp

text \<open>
  The claim fails here: at \<open>i = 1\<close> the check writes the coordinates (2,0) of vertex 0,
  the vertex that carries \<open>phi0\<close>, and not the coordinates (4,0) of vertex 1.
\<close>

theorem arc_diagnostic_not_at_vertex_i:
  "checkArcAngle_sub two_arcs_outline = [InfinitesimalArc 2 0]
   \<and> checkArcAngle_vertex (drop 1 two_arcs_outline) 1 = [InfinitesimalArc 2 0]
   \<and> (xPos (drop 1 two_arcs_outline ! 1), yPos (drop 1 two_arcs_outline ! 1)) = (4, 0)
   \<and> (xPos (drop 1 two_arcs_outline ! 0), yPos (drop 1 two_arcs_outline ! 0)) = (2, 0)"
proof -
  have len: "length (drop 1 two_arcs_outline) = 3" by (simp add: two_arcs_outline_def)
  have up: "[0..<3] = [0, 1, 2]" by (simp add: upt_rec)
  have "checkArcAngle_sub two_arcs_outline =
        concat (map (checkArcAngle_vertex (drop 1 two_arcs_outline)) [0..<3])"
    by (simp only: checkArcAngle_sub_def Let_def len) simp
  also have "\<dots> = checkArcAngle_vertex (drop 1 two_arcs_outline) 0
        @ checkArcAngle_vertex (drop 1 two_arcs_outline) 1
        @ checkArcAngle_vertex (drop 1 two_arcs_outline) 2"
    by (simp only: up list.map concat.simps append_Nil2)
  also have "\<dots> = [InfinitesimalArc 2 0]"
    by (simp only: two_arcs_vertex_0 two_arcs_vertex_1 two_arcs_vertex_2 append_Nil append_Nil2)
  finally have sub: "checkArcAngle_sub two_arcs_outline = [InfinitesimalArc 2 0]" .
  have c1: "(xPos (drop 1 two_arcs_outline ! 1), yPos (drop 1 two_arcs_outline ! 1)) = (4, 0)"
    by (simp add: two_arcs_outline_def)
  have c0: "(xPos (drop 1 two_arcs_outline ! 0), yPos (drop 1 two_arcs_outline ! 0)) = (2, 0)"
    by (simp add: two_arcs_outline_def)
  from sub two_arcs_vertex_1 c1 c0 show ?thesis by (intro conjI)
qed

lemma pynth_nonneg: "pynth s (int i) = s ! i"
  by (simp add: pynth_def)

lemma checkArcAngle_vertex_circular:
  assumes "i < length s" and "2 < length s"
  shows "checkArcAngle_vertex s i = arc_diag_at s i"
proof -
  have p1: "pynth s (int i - 1) = s ! ((i + length s - 1) mod length s)"
    using pynth_circular[OF assms(1), of 1] assms(2) by simp
  have p2: "pynth s (int i - 2) = s ! ((i + length s - 2) mod length s)"
    using pynth_circular[OF assms(1), of 2] assms(2) by simp
  show ?thesis
    by (simp only: checkArcAngle_vertex_def arc_diag_at_def p1 p2 pynth_nonneg Let_def) simp
qed

text \<open>
  C1. The claim: for every sub-shape with more than two vertices after its first vertex
  is dropped, and every position \<open>i\<close> (circular), \<open>phi0\<close> is the arc angle of vertex \<open>i-1\<close>,
  \<open>phi1\<close> that of vertex \<open>i\<close>, and a diagnostic carries the coordinates of vertex \<open>i\<close>. As
  the code has it, \<open>phi0\<close> and \<open>phi1\<close> are as the claim says, and the diagnostic carries
  the coordinates of vertex \<open>i-1\<close>, the vertex that the two segments share: the check does
  at every position what \<open>arc_diag_at\<close> says.
\<close>

theorem arc_check_indexing:
  "checkArcAngle_sub s0 =
     (if 2 < length (drop 1 s0)
      then concat (map (arc_diag_at (drop 1 s0)) [0..<length (drop 1 s0)])
      else [])"
proof (cases "2 < length (drop 1 s0)")
  case True
  have "map (checkArcAngle_vertex (drop 1 s0)) [0..<length (drop 1 s0)]
        = map (arc_diag_at (drop 1 s0)) [0..<length (drop 1 s0)]"
  proof (rule map_cong[OF refl])
    fix i assume "i \<in> set [0..<length (drop 1 s0)]"
    then have "i < length (drop 1 s0)" by simp
    then show "checkArcAngle_vertex (drop 1 s0) i = arc_diag_at (drop 1 s0) i"
      using True by (rule checkArcAngle_vertex_circular)
  qed
  with True show ?thesis by (simp only: checkArcAngle_sub_def Let_def if_True)
next
  case False
  then show ?thesis by (simp only: checkArcAngle_sub_def Let_def if_False)
qed

theorem arc_check_indexing_witness:
  "2 < length (drop 1 two_arcs_outline)
   \<and> arc (drop 1 two_arcs_outline ! 0) = 180 \<and> arc (drop 1 two_arcs_outline ! 1) = 180
   \<and> arc_diag_at (drop 1 two_arcs_outline) 1 =
       [InfinitesimalArc (xPos (drop 1 two_arcs_outline ! 0)) (yPos (drop 1 two_arcs_outline ! 0))]
   \<and> checkArcAngle_sub two_arcs_outline =
       arc_diag_at (drop 1 two_arcs_outline) 0 @ arc_diag_at (drop 1 two_arcs_outline) 1
       @ arc_diag_at (drop 1 two_arcs_outline) 2"
proof -
  have len: "length (drop 1 two_arcs_outline) = 3" by (simp add: two_arcs_outline_def)
  have l: "2 < length (drop 1 two_arcs_outline)" by (simp only: len)
  have up: "[0..<3] = [0, 1, 2]" by (simp add: upt_rec)
  have m: "(1 + 3 - 2) mod 3 = (2::nat)" "(1 + 3 - 1) mod 3 = (0::nat)" by simp_all
  have n: "drop 1 two_arcs_outline ! 0 = mk_coord 0 2 0 180"
    "drop 1 two_arcs_outline ! 1 = mk_coord 0 4 0 180"
    "drop 1 two_arcs_outline ! 2 = mk_coord 0 0 0 0"
    by (simp_all add: two_arcs_outline_def)
  have at1: "arc_diag_at (drop 1 two_arcs_outline) 1 =
       [InfinitesimalArc (xPos (drop 1 two_arcs_outline ! 0)) (yPos (drop 1 two_arcs_outline ! 0))]"
    using isclose_0_0
    by (simp only: arc_diag_at_def Let_def len m n mk_coord_fields two_arcs_delta_1) simp
  have "checkArcAngle_sub two_arcs_outline =
        concat (map (arc_diag_at (drop 1 two_arcs_outline)) [0..<3])"
    using arc_check_indexing[of two_arcs_outline] by (simp only: len) simp
  then have sub: "checkArcAngle_sub two_arcs_outline =
       arc_diag_at (drop 1 two_arcs_outline) 0 @ arc_diag_at (drop 1 two_arcs_outline) 1
       @ arc_diag_at (drop 1 two_arcs_outline) 2"
    by (simp only: up list.map concat.simps append_Nil2)
  from l n at1 sub show ?thesis by simp
qed

section \<open>The round cutout check\<close>

text \<open>After its first loop, \<open>checkRoundCutout\<close> holds the cutouts of the last shape only.\<close>

lemma checkRoundCutout_scan_last:
  "shs \<noteq> [] \<Longrightarrow> checkRoundCutout_scan shs tc cur = (cutouts (last shs), Some (last shs))"
proof (induction shs arbitrary: tc cur)
  case Nil
  then show ?case by simp
next
  case (Cons sh shs)
  then show ?case by (cases "shs = []") simp_all
qed

lemma checkRoundCutout_last_shape_only:
  assumes "shapes b \<noteq> []" and "cutouts (last (shapes b)) = []"
  shows "checkRoundCutout b = Inr b"
  using assms by (simp add: checkRoundCutout_def checkRoundCutout_scan_last)

text \<open>
  C2. The claim: for every shape of the board, a cutout of exactly two vertices whose
  second arc angle is 360 gives one round-cutout diagnostic and no closure diagnostic.
  The code checks the cutouts of the last shape only: \<open>toCheck\<close> is emptied in every
  iteration of the loop over the shapes, and the loop that reads it follows that loop.
  On the board below the circular cutout belongs to the first of two shapes, and
  \<open>checkRoundCutout\<close> appends nothing; with the shapes in the other order it appends the
  diagnostic. The closure check appends nothing for the cutout, as the claim says.
\<close>

theorem round_cutout_of_earlier_shape_missed:
  "emnObj_init dec_float round_cutout_file ''board.emn'' = Inr round_cutout_board
   \<and> length (cutouts round_cutout_outline ! 0) = 2
   \<and> arc (cutouts round_cutout_outline ! 0 ! 1) = 360
   \<and> checkRoundCutout round_cutout_board = Inr round_cutout_board
   \<and> checkClosedErrors round_cutout_board = Inr round_cutout_board
   \<and> checkRoundCutout (round_cutout_board\<lparr>shapes := [via_keepout, round_cutout_outline]\<rparr>) =
       Inr (round_cutout_board
              \<lparr>shapes := [via_keepout, round_cutout_outline],
               errors := [CutoutCircular (''.BOARD_OUTLINE'', 0, 0) 5 5]\<rparr>)"
proof (intro conjI)
  show "emnObj_init dec_float round_cutout_file ''board.emn'' = Inr round_cutout_board"
    by code_simp
  show "length (cutouts round_cutout_outline ! 0) = 2" by (simp add: round_cutout_outline_def)
  show "arc (cutouts round_cutout_outline ! 0 ! 1) = 360"
    by (simp add: round_cutout_outline_def mk_coord_def)
  show "checkRoundCutout round_cutout_board = Inr round_cutout_board"
    by (simp add: round_cutout_board_def checkRoundCutout_def via_keepout_def)
  show "checkClosedErrors round_cutout_board = Inr round_cutout_board"
    by (simp add: round_cutout_board_def checkClosedErrors_def checkClosed_shape_def toCheck_def
        checkClosed_sub_def first3_def via_keepout_def round_cutout_outline_def mk_coord_def)
  show "checkRoundCutout (round_cutout_board\<lparr>shapes := [via_keepout, round_cutout_outline]\<rparr>) =
       Inr (round_cutout_board
              \<lparr>shapes := [via_keepout, round_cutout_outline],
               errors := [CutoutCircular (''.BOARD_OUTLINE'', 0, 0) 5 5]\<rparr>)"
    by (simp add: round_cutout_board_def checkRoundCutout_def checkRoundCutout_sub_def
        shape_str_def item_def round_cutout_outline_def mk_coord_def)
qed

theorem round_cutout_of_earlier_shape_missed_witness:
  "map_sum id errors (checkRoundCutout round_cutout_board) = Inr []"
  using round_cutout_of_earlier_shape_missed by (simp add: round_cutout_board_def)

section \<open>The shape sections the scanner recognises\<close>

text \<open>
  C3. The claim: a section that opens with a line containing \<open>.ROUTE_KEEPOUT\<close> and ends
  with a line containing \<open>.END_ROUTE_KEEPOUT\<close> becomes a shape of that kind holding the
  section's vertex records. The code spells the start marker \<open>.ROUTE_KEEOUT\<close>: the
  opening line of the section does not contain it, no span is open when the end marker
  is met, and \<open>shape([])\<close> raises IndexError on \<open>sData[0]\<close>.
\<close>

theorem route_keepout_section_raises:
  "\<not> str_in ROUTE_KEEPOUT_START (route_keepout_file ! 0)
   \<and> str_in ROUTE_KEEPOUT_END (route_keepout_file ! 6)
   \<and> getShapes dec_float route_keepout_file = Inl IndexError"
  by code_simp

theorem route_keepout_section_raises_witness:
  "isl (getShapes dec_float route_keepout_file)"
  using route_keepout_section_raises by simp

section \<open>Numbers that do not parse\<close>

lemma emap_isl: "isl (emap f xs) \<longleftrightarrow> (\<exists>x\<in>set xs. isl (f x))"
proof (induction xs)
  case Nil
  then show ?case by simp
next
  case (Cons x xs)
  then show ?case by (cases "f x"; cases "emap f xs") auto
qed

lemma emap_append:
  "emap f (xs @ ys) =
     (case emap f xs of
        Inl e \<Rightarrow> Inl e
      | Inr a \<Rightarrow> (case emap f ys of Inl e \<Rightarrow> Inl e | Inr b \<Rightarrow> Inr (a @ b)))"
proof (induction xs)
  case Nil
  then show ?case by (cases "emap f ys") simp_all
next
  case (Cons x xs)
  then show ?case by (cases "f x"; cases "emap f xs"; cases "emap f ys") simp_all
qed

lemma shape_ends_loop_sections:
  "shape_ends_loop pf line ks shapeList cur cr =
     (case shape_ends_sections line ks cur cr of
        (secs, cur2, cr2) \<Rightarrow>
          (case emap (shape_init pf) secs of
             Inl e \<Rightarrow> Inl e
           | Inr shs \<Rightarrow> Inr (shapeList @ shs, cur2, cr2)))"
proof (induction ks arbitrary: shapeList cur cr)
  case Nil
  then show ?case by simp
next
  case (Cons k ks)
  show ?case
  proof (cases "str_in k line")
    case True
    obtain secs cur2 cr2 where s: "shape_ends_sections line ks [] False = (secs, cur2, cr2)"
      by (cases "shape_ends_sections line ks [] False")
    show ?thesis
    proof (cases "shape_init pf cur")
      case (Inl e)
      with True s show ?thesis by simp
    next
      case (Inr sh)
      with True s Cons.IH[of "shapeList @ [sh]" "[]" False] show ?thesis
        by (cases "emap (shape_init pf) secs") simp_all
    qed
  next
    case False
    with Cons.IH[of shapeList cur cr] show ?thesis by simp
  qed
qed

lemma getShapes_loop_sections:
  "getShapes_loop pf ls shapeList cur cr =
     (case emap (shape_init pf) (shape_sections_loop ls cur cr) of
        Inl e \<Rightarrow> Inl e
      | Inr shs \<Rightarrow> Inr (shapeList @ shs))"
proof (induction ls arbitrary: shapeList cur cr)
  case Nil
  then show ?case by simp
next
  case (Cons line rest)
  let ?cr1 = "if list_ex (\<lambda>keyword. str_in keyword line) SHAPE_STARTS then True else cr"
  let ?cur1 = "if ?cr1 then cur @ [line] else cur"
  obtain secs cur2 cr2 where s: "shape_ends_sections line SHAPE_ENDS ?cur1 ?cr1 = (secs, cur2, cr2)"
    by (cases "shape_ends_sections line SHAPE_ENDS ?cur1 ?cr1")
  have sec: "shape_sections_loop (line # rest) cur cr = secs @ shape_sections_loop rest cur2 cr2"
    using s by (simp add: Let_def)
  show ?case
  proof (cases "emap (shape_init pf) secs")
    case (Inl e)
    then have "shape_ends_loop pf line SHAPE_ENDS shapeList ?cur1 ?cr1 = Inl e"
      using s by (simp add: shape_ends_loop_sections)
    then have "getShapes_loop pf (line # rest) shapeList cur cr = Inl e"
      by (simp add: Let_def)
    moreover have "emap (shape_init pf) (shape_sections_loop (line # rest) cur cr) = Inl e"
      using Inl by (simp only: sec emap_append sum.case)
    ultimately show ?thesis by simp
  next
    case (Inr shs)
    then have "shape_ends_loop pf line SHAPE_ENDS shapeList ?cur1 ?cr1 = Inr (shapeList @ shs, cur2, cr2)"
      using s by (simp add: shape_ends_loop_sections)
    then have "getShapes_loop pf (line # rest) shapeList cur cr
        = getShapes_loop pf rest (shapeList @ shs) cur2 cr2"
      by (simp add: Let_def)
    also have "\<dots> = (case emap (shape_init pf) (shape_sections_loop rest cur2 cr2) of
        Inl e \<Rightarrow> Inl e | Inr shs' \<Rightarrow> Inr ((shapeList @ shs) @ shs'))"
      by (rule Cons.IH)
    finally show ?thesis
      using Inr by (cases "emap (shape_init pf) (shape_sections_loop rest cur2 cr2)")
        (simp_all only: sec emap_append sum.case append_assoc)
  qed
qed

lemma getShapes_sections: "getShapes pf emnData = emap (shape_init pf) (shape_sections emnData)"
  by (cases "emap (shape_init pf) (shape_sections_loop emnData [] False)")
    (simp_all add: getShapes_def shape_sections_def getShapes_loop_sections)

lemma getParts_loop_records:
  "getParts_loop pf ls pr l0 fl pl =
     (case emap (part_init pf) (part_records_loop ls pr l0 fl) of
        Inl e \<Rightarrow> Inl e
      | Inr ps \<Rightarrow> Inr (pl @ ps))"
proof (induction ls arbitrary: pr l0 fl pl)
  case Nil
  then show ?case by simp
next
  case (Cons line rest)
  show ?case
    by (cases "str_in PLACEMENT_END line"; cases "str_in PLACEMENT_START line"; cases pr; cases fl)
      (simp_all add: Let_def Cons.IH split: sum.splits)
qed

lemma getParts_records: "getParts pf emnData = emap (part_init pf) (part_records emnData)"
  by (cases "emap (part_init pf) (part_records_loop emnData False [] True)")
    (simp_all add: getParts_def part_records_def getParts_loop_records)

lemma getDrills_loop_records:
  "getDrills_loop pf ls dr dl =
     (case emap (drill_init pf) (drill_records_loop ls dr) of
        Inl e \<Rightarrow> Inl e
      | Inr ds \<Rightarrow> Inr (dl @ ds))"
proof (induction ls arbitrary: dr dl)
  case Nil
  then show ?case by simp
next
  case (Cons line rest)
  show ?case
    by (cases "str_in DRILL_END line"; cases "str_in DRILL_START line"; cases dr)
      (simp_all add: Let_def Cons.IH split: sum.splits)
qed

lemma getDrills_records: "getDrills pf emnData = emap (drill_init pf) (drill_records emnData)"
  by (cases "emap (drill_init pf) (drill_records_loop emnData False)")
    (simp_all add: getDrills_def drill_records_def getDrills_loop_records)

lemma getEmnsInFolder_loop_emap:
  "getEmnsInFolder_loop pf files acc =
     (case emap (\<lambda>(file, lineList). emnObj_init pf lineList file) files of
        Inl e \<Rightarrow> Inl e
      | Inr bs \<Rightarrow> Inr (acc @ bs))"
proof (induction files arbitrary: acc)
  case Nil
  then show ?case by simp
next
  case (Cons fl files)
  obtain fname lineList where fl: "fl = (fname, lineList)" by (cases fl)
  show ?case
  proof (cases "emnObj_init pf lineList fname")
    case (Inl e)
    with fl show ?thesis by simp
  next
    case (Inr b)
    with fl Cons.IH[of "acc @ [b]"] show ?thesis
      by (cases "emap (\<lambda>(file, lineList). emnObj_init pf lineList file) files") simp_all
  qed
qed

lemma getEmnsInFolder_emap:
  "getEmnsInFolder pf files = emap (\<lambda>(file, lineList). emnObj_init pf lineList file) files"
  by (cases "emap (\<lambda>(file, lineList). emnObj_init pf lineList file) files")
    (simp_all add: getEmnsInFolder_def getEmnsInFolder_loop_emap)

lemma float_of_isl: "isl (float_of pf s) \<longleftrightarrow> pf s = None"
  by (cases "pf s") (simp_all add: float_of_def)

lemma item_float_isl:
  "k < length xs \<Longrightarrow> pf (xs ! k) = None \<Longrightarrow> isl (ebind (item xs k) (float_of pf))"
  by (simp add: item_def float_of_isl)

lemma parse_coord_isl:
  assumes "k < 4" "pf (line ! k) = None"
  shows "isl (parse_coord pf line)"
proof -
  from assms(1) consider "k = 0" | "k = 1" | "k = 2" | "k = 3" by linarith
  then show ?thesis
  proof cases
    case 1
    with assms(2) show ?thesis by (simp add: parse_coord_def float_of_def)
  next
    case 2
    with assms(2) show ?thesis
      by (cases "pf (line ! 0)") (simp_all add: parse_coord_def float_of_def)
  next
    case 3
    with assms(2) show ?thesis
      by (cases "pf (line ! 0)"; cases "pf (line ! 1)") (simp_all add: parse_coord_def float_of_def)
  next
    case 4
    with assms(2) show ?thesis
      by (cases "pf (line ! 0)"; cases "pf (line ! 1)"; cases "pf (line ! 2)")
        (simp_all add: parse_coord_def float_of_def)
  qed
qed

lemma getCoords_loop_isl:
  "\<exists>line\<in>set ls. isl (parse_coord pf line) \<Longrightarrow> isl (getCoords_loop pf ls ss cur ci)"
proof (induction ls arbitrary: ss cur ci)
  case Nil
  then show ?case by simp
next
  case (Cons l ls)
  show ?case
  proof (cases "parse_coord pf l")
    case (Inl e)
    then show ?thesis by simp
  next
    case (Inr c)
    with Cons.prems have "\<exists>line\<in>set ls. isl (parse_coord pf line)" by auto
    from Cons.IH[OF this] Inr show ?thesis by simp
  qed
qed

lemma getCoords_isl:
  assumes "bad_coord_line pf sData"
  shows "isl (getCoords pf sData)"
proof -
  from assms obtain line k where line: "line \<in> set sData" "length (str_split line) = 4"
    and k: "k \<in> {0, 1, 2, 3}" "pf (str_split line ! k) = None"
    by (auto simp: bad_coord_line_def bad_field_def list_ex_iff)
  from k have "isl (parse_coord pf (str_split line))" by (intro parse_coord_isl[of k]) auto
  moreover have "str_split line \<in> set (map str_split (filter (\<lambda>line. length (str_split line) = 4) sData))"
    using line by auto
  ultimately have "isl (getCoords_loop pf
      (map str_split (filter (\<lambda>line. length (str_split line) = 4) sData)) [] [] 0)"
    by (intro getCoords_loop_isl) blast
  then show ?thesis by (simp add: getCoords_def isl_ebind)
qed

lemma getHeight_isl:
  assumes "bad_height_line pf sData"
  shows "isl (getHeight pf sData (str_split (sData ! 0) ! 0))"
proof -
  let ?st = "str_split (sData ! 0) ! 0"
  from assms have len: "1 < length sData"
    and cases: "?st = BOARD_START \<and> pf (sData ! 1) = None
         \<or> (?st = OTHER_START \<or> ?st = PLACE_OUTLINE_START) \<and> bad_field pf (sData ! 1) [1]"
    by (simp_all add: bad_height_line_def Let_def)
  from cases show ?thesis
  proof
    assume "?st = BOARD_START \<and> pf (sData ! 1) = None"
    with len show ?thesis by (simp add: getHeight_def item_def float_of_isl)
  next
    assume a: "(?st = OTHER_START \<or> ?st = PLACE_OUTLINE_START) \<and> bad_field pf (sData ! 1) [1]"
    then have "?st \<noteq> BOARD_START" by (auto simp: marker_defs)
    moreover from a have "isl (ebind (item (str_split (sData ! 1)) 1) (float_of pf))"
      by (intro item_float_isl) (simp_all add: bad_field_def)
    ultimately show ?thesis using a len by (simp add: getHeight_def item_def)
  qed
qed

lemma shape_init_isl:
  assumes "bad_coord_line pf sData \<or> bad_height_line pf sData"
  shows "isl (shape_init pf sData)"
proof (cases "shape_init pf sData")
  case (Inl e)
  then show ?thesis by simp
next
  case (Inr sh)
  then obtain first st cs ol h where
    f: "item sData 0 = Inr first" and st: "item (str_split first) 0 = Inr st"
    and cs: "getCoords pf sData = Inr cs" and h: "getHeight pf sData st = Inr h"
    by (auto simp: shape_init_def ebind_eq_Inr)
  from cs have "\<not> isl (getCoords pf sData)" by simp
  with assms getCoords_isl have bh: "bad_height_line pf sData" by blast
  from f st have "st = str_split (sData ! 0) ! 0" by (auto simp: item_def split: if_splits)
  with getHeight_isl[OF bh] h show ?thesis by simp
qed

lemma part_init_isl:
  assumes "bad_field pf (snd pData) [0, 1, 3]"
  shows "isl (part_init pf pData)"
proof -
  let ?t = "str_split (snd pData)"
  from assms obtain k where k: "k \<in> {0, 1, 3}" "k < length ?t" "pf (?t ! k) = None"
    by (auto simp: bad_field_def)
  have bad: "isl (ebind (item ?t k) (float_of pf))" using k by (intro item_float_isl)
  have "isl (part_getCoords pf (snd pData))"
  proof (cases "ebind (item ?t 0) (float_of pf)")
    case (Inl e)
    then show ?thesis by (simp add: part_getCoords_def)
  next
    case x: (Inr x)
    show ?thesis
    proof (cases "ebind (item ?t 1) (float_of pf)")
      case (Inl e)
      with x show ?thesis by (simp add: part_getCoords_def)
    next
      case y: (Inr y)
      from x y bad k(1) have "isl (ebind (item ?t 3) (float_of pf))" by auto
      with x y show ?thesis
        by (cases "ebind (item ?t 3) (float_of pf)") (simp_all add: part_getCoords_def)
    qed
  qed
  then show ?thesis by (simp add: part_init_def isl_ebind)
qed

lemma drill_init_isl:
  assumes "bad_field pf dData [0, 1, 2]"
  shows "isl (drill_init pf dData)"
proof -
  let ?t = "str_split dData"
  from assms obtain k where k: "k \<in> {0, 1, 2}" "k < length ?t" "pf (?t ! k) = None"
    by (auto simp: bad_field_def)
  have bad: "isl (ebind (item ?t k) (float_of pf))" using k by (intro item_float_isl)
  show ?thesis
  proof (cases "ebind (item ?t 0) (float_of pf)")
    case (Inl e)
    then show ?thesis by (simp add: drill_init_def)
  next
    case x: (Inr x)
    show ?thesis
    proof (cases "ebind (item ?t 1) (float_of pf)")
      case (Inl e)
      with x show ?thesis by (simp add: drill_init_def)
    next
      case y: (Inr y)
      from x y bad k(1) have "isl (ebind (item ?t 2) (float_of pf))" by auto
      with x y show ?thesis
        by (cases "ebind (item ?t 2) (float_of pf)") (simp_all add: drill_init_def)
    qed
  qed
qed

lemma emnObj_init_isl:
  "isl (emnObj_init pf emnData fname) \<longleftrightarrow>
   isl (getParts pf emnData) \<or> isl (getShapes pf emnData) \<or> isl (getDrills pf emnData)"
  by (cases "getParts pf emnData"; cases "getShapes pf emnData"; cases "getDrills pf emnData")
    (simp_all add: emnObj_init_def)

text \<open>
  C4. The claim: a record line with a numeric field that \<open>float\<close> rejects makes the
  processing of its file fail with a propagated error, and in a batch that failure
  aborts the offending file only. As the code has it: the exception leaves
  \<open>emnObj.__init__\<close>, so no board exists for the file (no value is coerced to zero, no
  diagnostic is appended); \<open>getEmnsInFolder\<close> catches nothing, so the exception leaves it
  too and the batch yields no board at all.
\<close>

theorem bad_number_aborts_file_and_batch:
  assumes "bad_record pf lineList" and "(fname, lineList) \<in> set files"
  shows "isl (emnObj_init pf lineList fname) \<and> isl (getEmnsInFolder pf files)"
proof -
  from assms(1) have "isl (getParts pf lineList) \<or> isl (getShapes pf lineList) \<or> isl (getDrills pf lineList)"
    unfolding bad_record_def getParts_records getShapes_sections getDrills_records emap_isl list_ex_iff
    using shape_init_isl part_init_isl drill_init_isl by blast
  then have one: "isl (emnObj_init pf lineList fname)" by (simp add: emnObj_init_isl)
  with assms(2) have "\<exists>x\<in>set files. isl ((\<lambda>(file, lineList). emnObj_init pf lineList file) x)"
    by (intro bexI[of _ "(fname, lineList)"]) simp_all
  then have "isl (getEmnsInFolder pf files)" by (simp only: getEmnsInFolder_emap emap_isl)
  with one show ?thesis by simp
qed

theorem bad_number_aborts_file_and_batch_witness:
  "bad_record dec_float bad_vertex_file
   \<and> emnObj_init dec_float bad_vertex_file ''bad.emn'' = Inl ValueError
   \<and> isl (getEmnsInFolder dec_float
             [(''good.emn'', header_only_file), (''bad.emn'', bad_vertex_file)])"
proof -
  have b: "bad_record dec_float bad_vertex_file" by code_simp
  have m: "(''bad.emn'', bad_vertex_file)
           \<in> set [(''good.emn'', header_only_file), (''bad.emn'', bad_vertex_file)]" by simp
  have v: "emnObj_init dec_float bad_vertex_file ''bad.emn'' = Inl ValueError" by code_simp
  from bad_number_aborts_file_and_batch[OF b m] b v show ?thesis by simp
qed

text \<open>
  The claim fails here: the file \<open>good.emn\<close> builds a board on its own, and the batch
  that holds it beside \<open>bad.emn\<close> yields the exception, in either order.
\<close>

theorem bad_number_aborts_whole_batch:
  "emnObj_init dec_float header_only_file ''good.emn'' = Inr header_only_board
   \<and> getEmnsInFolder dec_float [(''good.emn'', header_only_file), (''bad.emn'', bad_vertex_file)]
       = Inl ValueError
   \<and> getEmnsInFolder dec_float [(''bad.emn'', bad_vertex_file), (''good.emn'', header_only_file)]
       = Inl ValueError"
  by code_simp

section \<open>Diagnostics after construction\<close>

lemma getUnits_loop_errors:
  "snd (getUnits_loop emnData u) = (if units_missing emnData then [CouldNotFindUnits] else [])"
  by (induction emnData arbitrary: u) (simp_all add: units_missing_def)

lemma checkLibErrors_loop_appends:
  "checkLibErrors_loop l ps errs cf = (r, cf') \<Longrightarrow> \<exists>ds. r = errs @ ds"
proof (induction ps arbitrary: errs cf)
  case Nil
  then show ?case by simp
next
  case (Cons p ps)
  consider (inv) "CHR ''_'' \<in> set (name p) \<or> CHR ''^'' \<in> set (name p) \<or> str_in ''_cc'' (name p)"
    | (nf) "\<not> (CHR ''_'' \<in> set (name p) \<or> CHR ''^'' \<in> set (name p) \<or> str_in ''_cc'' (name p))"
        "upper (name p) \<notin> set l"
    | (ok) "\<not> (CHR ''_'' \<in> set (name p) \<or> CHR ''^'' \<in> set (name p) \<or> str_in ''_cc'' (name p))"
        "upper (name p) \<in> set l"
    by blast
  then show ?case
  proof cases
    case inv
    with Cons.prems have "checkLibErrors_loop l ps (errs @ [InvalidChars (name p) (refDes p)]) True = (r, cf')"
      by simp
    from Cons.IH[OF this] obtain ds where "r = (errs @ [InvalidChars (name p) (refDes p)]) @ ds" by blast
    then have "r = errs @ (InvalidChars (name p) (refDes p) # ds)" by simp
    then show ?thesis by blast
  next
    case nf
    with Cons.prems have "checkLibErrors_loop l ps (errs @ [NotInLibrary (name p)]) cf = (r, cf')"
      by simp
    from Cons.IH[OF this] obtain ds where "r = (errs @ [NotInLibrary (name p)]) @ ds" by blast
    then have "r = errs @ (NotInLibrary (name p) # ds)" by simp
    then show ?thesis by blast
  next
    case ok
    with Cons.prems have "checkLibErrors_loop l ps errs cf = (r, cf')" by simp
    from Cons.IH[OF this] show ?thesis .
  qed
qed

lemma checkLibErrors_appends: "\<exists>ds. checkLibErrors b l = b\<lparr>errors := errors b @ ds\<rparr>"
proof -
  obtain r cf where loop: "checkLibErrors_loop l (parts b) (errors b) False = (r, cf)"
    by (cases "checkLibErrors_loop l (parts b) (errors b) False")
  from checkLibErrors_loop_appends[OF loop] obtain ds where ds: "r = errors b @ ds" by blast
  have "checkLibErrors b l = b\<lparr>errors := errors b @ (if cf then ds @ [InvalidCharsSummary] else ds)\<rparr>"
    using loop ds by (simp add: checkLibErrors_def)
  then show ?thesis by blast
qed

lemma checkAllErrors_Some_nonempty:
  "l \<noteq> [] \<Longrightarrow> checkAllErrors b (Some l) = ebind (checkAllErrors b None) (\<lambda>b7. Inr (checkLibErrors b7 l))"
  unfolding checkAllErrors_def Let_def
  by (simp add: ebind_def split: sum.splits)

lemma checkAllErrors_appends:
  assumes "checkAllErrors b lib = Inr b'"
  shows "\<exists>ds. b' = b\<lparr>errors := errors b @ ds\<rparr>"
proof (cases "\<exists>l. lib = Some l \<and> l \<noteq> []")
  case True
  then obtain l where l: "lib = Some l" "l \<noteq> []" by blast
  with assms obtain b7 where b7: "checkAllErrors b None = Inr b7" and b': "b' = checkLibErrors b7 l"
    by (auto simp: checkAllErrors_Some_nonempty ebind_eq_Inr)
  from checkAllErrors_None_appends[OF b7] obtain d1 where d1: "b7 = b\<lparr>errors := errors b @ d1\<rparr>" by blast
  from checkLibErrors_appends[of b7 l] obtain d2 where d2: "checkLibErrors b7 l = b7\<lparr>errors := errors b7 @ d2\<rparr>"
    by blast
  have "b' = b\<lparr>errors := errors b @ (d1 @ d2)\<rparr>" using b' d1 d2 by simp
  then show ?thesis by blast
next
  case False
  then have "checkAllErrors b lib = checkAllErrors b None"
    by (cases lib) (auto simp: checkAllErrors_def)
  with assms checkAllErrors_None_appends show ?thesis by metis
qed

text \<open>
  C5. The claim: \<open>errors\<close> is empty right after construction and only the checks append
  to it. As the code has it: \<open>emnObj.__init__\<close> calls \<open>getUnits\<close> after \<open>errors = []\<close>, and
  \<open>getUnits\<close> appends "Could not find units in file" when it meets \<open>.END_HEADER\<close> before
  any units; so after construction \<open>errors\<close> is empty or holds exactly that entry. After
  construction, \<open>checkAllErrors\<close> appends to \<open>errors\<close> and changes nothing else.
\<close>

theorem diagnostics_after_construction:
  assumes "emnObj_init pf currentData fname = Inr b"
  shows "errors b = (if units_missing currentData then [CouldNotFindUnits] else [])
         \<and> (\<forall>lib b'. checkAllErrors b lib = Inr b' \<longrightarrow> (\<exists>ds. b' = b\<lparr>errors := errors b @ ds\<rparr>))"
proof -
  from assms have "errors b = snd (getUnits currentData)"
    by (auto simp: emnObj_init_def ebind_eq_Inr)
  then have "errors b = (if units_missing currentData then [CouldNotFindUnits] else [])"
    by (simp add: getUnits_def getUnits_loop_errors)
  then show ?thesis using checkAllErrors_appends by blast
qed

theorem diagnostics_after_construction_witness:
  "emnObj_init dec_float no_units_file ''board.emn'' = Inr no_units_board
   \<and> units_missing no_units_file
   \<and> errors no_units_board = [CouldNotFindUnits]
   \<and> checkAllErrors no_units_board None = Inr (no_units_board\<lparr>errors := [CouldNotFindUnits, NoShapes]\<rparr>)"
proof -
  have init: "emnObj_init dec_float no_units_file ''board.emn'' = Inr no_units_board"
    by code_simp
  have chk: "checkAllErrors no_units_board None = Inr (no_units_board\<lparr>errors := [CouldNotFindUnits, NoShapes]\<rparr>)"
    by (simp add: no_units_board_def checkAllErrors_def checkHeightErrors_def checkNegErrors_def
      checkClosedErrors_def checkRefDesErrors_def checkRoundCutout_def checkEmpty_def
      checkArcAngle_def)
  have um: "units_missing no_units_file" by code_simp
  from diagnostics_after_construction[OF init] um chk init show ?thesis by simp
qed

text \<open>The claim fails here: the board just built already holds a diagnostic.\<close>

theorem diagnostics_not_empty_after_construction:
  "map_sum id errors (emnObj_init dec_float no_units_file ''board.emn'') = Inr [CouldNotFindUnits]"
  by code_simp

section \<open>The height check\<close>

lemma heightError_iff: "heightError u sh \<longleftrightarrow> height_flagged u sh"
  by (auto simp: heightError_def height_flagged_def PLACE_OUTLINE_START_def)

lemma shape_str_outline: "outline sh \<noteq> [] \<Longrightarrow> shape_str sh = Inr (shape_text_of sh)"
  by (simp add: shape_str_def item_def shape_text_of_def)

lemma shape_str_empty: "outline sh = [] \<Longrightarrow> shape_str sh = Inl IndexError"
  by (simp add: shape_str_def item_def)

lemma checkHeightErrors_loop_total:
  "(\<forall>sh\<in>set shs. height_flagged u sh \<longrightarrow> outline sh \<noteq> []) \<Longrightarrow>
   checkHeightErrors_loop u shs errs hf =
     Inr (errs @ map (\<lambda>sh. TooShort (shape_text_of sh)) (filter (height_flagged u) shs),
          hf \<or> (\<exists>sh\<in>set shs. height_flagged u sh))"
proof (induction shs arbitrary: errs hf)
  case Nil
  then show ?case by simp
next
  case (Cons sh shs)
  show ?case
  proof (cases "height_flagged u sh")
    case True
    with Cons.prems have "shape_str sh = Inr (shape_text_of sh)" by (simp add: shape_str_outline)
    with True Cons show ?thesis by (simp add: heightError_iff)
  next
    case False
    with Cons show ?thesis by (simp add: heightError_iff)
  qed
qed

lemma checkHeightErrors_loop_raises:
  "\<exists>sh\<in>set shs. height_flagged u sh \<and> outline sh = [] \<Longrightarrow>
   checkHeightErrors_loop u shs errs hf = Inl IndexError"
proof (induction shs arbitrary: errs hf)
  case Nil
  then show ?case by simp
next
  case (Cons sh shs)
  show ?case
  proof (cases "height_flagged u sh")
    case True
    show ?thesis
    proof (cases "outline sh = []")
      case True
      with \<open>height_flagged u sh\<close> show ?thesis by (simp add: heightError_iff shape_str_empty)
    next
      case False
      with Cons.prems have "\<exists>sh\<in>set shs. height_flagged u sh \<and> outline sh = []" by auto
      from Cons.IH[OF this] False True show ?thesis by (simp add: heightError_iff shape_str_outline)
    qed
  next
    case False
    with Cons.prems have "\<exists>sh\<in>set shs. height_flagged u sh \<and> outline sh = []" by auto
    from Cons.IH[OF this] False show ?thesis by (simp add: heightError_iff)
  qed
qed

text \<open>
  C6. The claim: for every placement outline the height check appends a diagnostic iff
  its height is at most 0.026 (MM) or at most 1 (THOU), and one summary entry iff some
  shape was flagged. As the code has it: the diagnostic names the shape through
  \<open>shape.__str__\<close>, which reads the first outline vertex. When every flagged shape has an
  outline vertex, the check appends one "too short" entry per flagged shape, in order,
  and then the summary entry iff some shape was flagged; when a flagged shape has no
  outline vertex, the check raises IndexError.
\<close>

theorem height_check_flags_short_place_outlines:
  "((\<forall>sh\<in>set (shapes b). height_flagged (units b) sh \<longrightarrow> outline sh \<noteq> []) \<longrightarrow>
      checkHeightErrors b =
        Inr (b\<lparr>errors := errors b
                  @ map (\<lambda>sh. TooShort (shape_text_of sh)) (filter (height_flagged (units b)) (shapes b))
                  @ (if \<exists>sh\<in>set (shapes b). height_flagged (units b) sh then [RecommendKeepout] else [])\<rparr>))
   \<and> ((\<exists>sh\<in>set (shapes b). height_flagged (units b) sh \<and> outline sh = []) \<longrightarrow>
      checkHeightErrors b = Inl IndexError)"
proof (intro conjI impI)
  assume "\<forall>sh\<in>set (shapes b). height_flagged (units b) sh \<longrightarrow> outline sh \<noteq> []"
  from checkHeightErrors_loop_total[OF this, of "errors b" False]
  show "checkHeightErrors b =
        Inr (b\<lparr>errors := errors b
                  @ map (\<lambda>sh. TooShort (shape_text_of sh)) (filter (height_flagged (units b)) (shapes b))
                  @ (if \<exists>sh\<in>set (shapes b). height_flagged (units b) sh then [RecommendKeepout] else [])\<rparr>)"
    by (simp add: checkHeightErrors_def)
next
  assume "\<exists>sh\<in>set (shapes b). height_flagged (units b) sh \<and> outline sh = []"
  from checkHeightErrors_loop_raises[OF this, of "errors b" False]
  show "checkHeightErrors b = Inl IndexError" by (simp add: checkHeightErrors_def)
qed

theorem height_check_flags_short_place_outlines_witness:
  "checkHeightErrors (height_board ''MM'' [0.026, 0.0261]) =
     Inr ((height_board ''MM'' [0.026, 0.0261])
            \<lparr>errors := [TooShort (''.PLACE_OUTLINE'', 0, 0), RecommendKeepout]\<rparr>)
   \<and> checkHeightErrors (height_board ''THOU'' [1.01, 1]) =
     Inr ((height_board ''THOU'' [1.01, 1])
            \<lparr>errors := [TooShort (''.PLACE_OUTLINE'', 0, 0), RecommendKeepout]\<rparr>)
   \<and> checkHeightErrors (height_board ''MM'' [0.0261, 1]) = Inr (height_board ''MM'' [0.0261, 1])
   \<and> checkHeightErrors empty_place_outline_board = Inl IndexError"
proof -
  have ol: "outline (place_outline h) \<noteq> []" for h
    by (simp add: place_outline_def square_outline_def)
  have tx: "shape_text_of (place_outline h) = (''.PLACE_OUTLINE'', 0, 0)" for h
    by (simp add: shape_text_of_def place_outline_def square_outline_def)
  have fl: "height_flagged u (place_outline h) \<longleftrightarrow> (u = ''MM'' \<and> h \<le> 0.026 \<or> u = ''THOU'' \<and> h \<le> 1)"
    for u h
    by (simp add: height_flagged_def place_outline_def)
  have a: "\<forall>sh\<in>set (shapes (height_board u hs)).
             height_flagged (units (height_board u hs)) sh \<longrightarrow> outline sh \<noteq> []" for u hs
    using ol by (auto simp: height_board_def)
  have e: "\<exists>sh\<in>set (shapes empty_place_outline_board).
             height_flagged (units empty_place_outline_board) sh \<and> outline sh = []"
    by (simp add: empty_place_outline_board_def height_flagged_def)
  have c1: "checkHeightErrors (height_board ''MM'' [0.026, 0.0261]) =
     Inr ((height_board ''MM'' [0.026, 0.0261])
            \<lparr>errors := [TooShort (''.PLACE_OUTLINE'', 0, 0), RecommendKeepout]\<rparr>)"
    using height_check_flags_short_place_outlines[of "height_board ''MM'' [0.026, 0.0261]"]
      a[of "''MM''" "[0.026, 0.0261]"]
    by (simp add: height_board_def fl tx)
  have c2: "checkHeightErrors (height_board ''THOU'' [1.01, 1]) =
     Inr ((height_board ''THOU'' [1.01, 1])
            \<lparr>errors := [TooShort (''.PLACE_OUTLINE'', 0, 0), RecommendKeepout]\<rparr>)"
    using height_check_flags_short_place_outlines[of "height_board ''THOU'' [1.01, 1]"]
      a[of "''THOU''" "[1.01, 1]"]
    by (simp add: height_board_def fl tx)
  have c3: "checkHeightErrors (height_board ''MM'' [0.0261, 1]) = Inr (height_board ''MM'' [0.0261, 1])"
    using height_check_flags_short_place_outlines[of "height_board ''MM'' [0.0261, 1]"]
      a[of "''MM''" "[0.0261, 1]"]
    by (simp add: height_board_def fl tx)
  have c4: "checkHeightErrors empty_place_outline_board = Inl IndexError"
    using height_check_flags_short_place_outlines[of empty_place_outline_board] e by blast
  from c1 c2 c3 c4 show ?thesis by blast
qed

text \<open>
  The claim fails here: the placement outline has height 0 in MM and no coordinate line;
  no diagnostic is appended, the check raises.
\<close>

theorem height_check_raises_on_empty_outline:
  "emnObj_init dec_float empty_place_outline_file ''board.emn'' = Inr empty_place_outline_board
   \<and> height (shapes empty_place_outline_board ! 0) \<le> 0.026
   \<and> checkHeightErrors empty_place_outline_board = Inl IndexError"
proof (intro conjI)
  show "emnObj_init dec_float empty_place_outline_file ''board.emn'' = Inr empty_place_outline_board"
    by code_simp
  show "height (shapes empty_place_outline_board ! 0) \<le> 0.026"
    by (simp add: empty_place_outline_board_def)
  show "checkHeightErrors empty_place_outline_board = Inl IndexError"
    by (simp add: empty_place_outline_board_def checkHeightErrors_def heightError_def
        PLACE_OUTLINE_START_def shape_str_def item_def)
qed

section \<open>The closure check\<close>



lemma checkClosed_sub_closed:
  "3 \<le> length s \<Longrightarrow> first3 (s ! 0) = first3 (last s) \<Longrightarrow> checkClosed_sub sh s = Inr []"
  by (simp add: checkClosed_sub_def)











section \<open>The library check\<close>

text \<open>
  C9. With an empty part-name list, \<open>checkAllErrors\<close> behaves exactly as with no library
  at all (\<open>None\<close>): \<open>checkLibErrors\<close> is not run, and whatever the run appends to
  \<open>errors\<close> holds no "has invalid characters", no "not found in parts library" and no
  summary entry.
\<close>

theorem empty_library_skips_library_check:
  "checkAllErrors b (Some []) = checkAllErrors b None
   \<and> (\<forall>b'. checkAllErrors b (Some []) = Inr b' \<longrightarrow>
         (\<exists>ds. b' = b\<lparr>errors := errors b @ ds\<rparr> \<and> (\<forall>d\<in>set ds. \<not> lib_diag d)))"
proof -
  have eq: "checkAllErrors b (Some []) = checkAllErrors b None"
    by (simp add: checkAllErrors_def)
  show ?thesis using eq checkAllErrors_None_appends by simp
qed

section \<open>The library check on an example\<close>

lemma lib_board_None: "checkAllErrors lib_board None = Inr (lib_board\<lparr>errors := [NoShapes]\<rparr>)"
  by (simp add: lib_board_def checkAllErrors_def checkHeightErrors_def checkNegErrors_def
      checkClosedErrors_def checkRefDesErrors_def checkRoundCutout_def checkEmpty_def
      checkArcAngle_def checkNeg_part_def checkRefDes_part_def item_def)

lemma lib_board_Some:
  "checkAllErrors lib_board (Some [''RES_0402'']) =
   Inr (lib_board\<lparr>errors := [NoShapes, InvalidChars ''cap_0603'' ''C1'', InvalidCharsSummary]\<rparr>)"
  by (simp add: lib_board_def checkAllErrors_def checkHeightErrors_def checkNegErrors_def
      checkClosedErrors_def checkRefDesErrors_def checkRoundCutout_def checkEmpty_def
      checkArcAngle_def checkNeg_part_def checkRefDes_part_def item_def checkLibErrors_def)

theorem empty_library_skips_library_check_witness:
  "checkAllErrors lib_board (Some []) = checkAllErrors lib_board None
   \<and> checkAllErrors lib_board (Some []) = Inr (lib_board\<lparr>errors := [NoShapes]\<rparr>)
   \<and> \<not> lib_diag NoShapes
   \<and> checkAllErrors lib_board (Some [''RES_0402'']) =
       Inr (lib_board\<lparr>errors := [NoShapes, InvalidChars ''cap_0603'' ''C1'', InvalidCharsSummary]\<rparr>)"
  using empty_library_skips_library_check[of lib_board] lib_board_None lib_board_Some
  by simp

section \<open>The reference designator check\<close>

lemma split_on_go_last:
  "sep \<notin> set post \<Longrightarrow> last (split_on_go sep cur (pre @ sep # post)) = post"
proof (induction pre arbitrary: cur)
  case Nil
  have "split_on_go sep c post = [c @ post]" if "sep \<notin> set post" for c
    using that by (induction post arbitrary: c) auto
  with Nil show ?case by simp
next
  case (Cons a pre)
  have ne: "split_on_go sep c xs \<noteq> []" for c xs
    by (induction xs arbitrary: c) auto
  with Cons show ?case by simp
qed

lemma split_on_go_length:
  "2 \<le> length (split_on_go sep cur (pre @ sep # post))"
proof (induction pre arbitrary: cur)
  case Nil
  have ne: "split_on_go sep c xs \<noteq> []" for c xs
    by (induction xs arbitrary: c) auto
  then have "1 \<le> length (split_on_go sep [] post)"
    by (cases "split_on_go sep [] post") simp_all
  then show ?case by simp
next
  case (Cons a pre)
  show ?case
  proof (cases "a = sep")
    case True
    have "2 \<le> length (split_on_go sep [] (pre @ sep # post))" by (rule Cons.IH)
    then show ?thesis using True by simp
  next
    case False
    then show ?thesis using Cons.IH by simp
  qed
qed

lemma strip_spaces: "list_all isspace post \<Longrightarrow> strip post = []"
  by (auto simp: strip_def list_all_iff dest: set_dropWhileD)

lemma getNames_quote_then_spaces:
  assumes "list_all isspace post"
  shows "\<exists>pName. getNames (pre @ CHR 0x22 # post) = Inr (pName, [])"
proof -
  let ?l = "pre @ CHR 0x22 # post"
  have nq: "CHR 0x22 \<notin> set post"
  proof
    assume "CHR 0x22 \<in> set post"
    with assms have "isspace (CHR 0x22)" by (simp add: list_all_iff)
    then show False by (simp add: isspace_def)
  qed
  have len: "1 < length (str_split_on (CHR 0x22) ?l)"
    using split_on_go_length[of "CHR 0x22" "[]" pre post] by (simp add: str_split_on_def)
  then have ne: "str_split_on (CHR 0x22) ?l \<noteq> []" by auto
  have lst: "last (str_split_on (CHR 0x22) ?l) = post"
    using split_on_go_last[OF nq] by (simp add: str_split_on_def)
  have "getNames ?l = Inr (str_split_on (CHR 0x22) ?l ! 1, strip post)"
    using len ne lst by (simp add: getNames_def item_def item_last_def)
  then show ?thesis using strip_spaces[OF assms] by simp
qed

lemma checkRefDes_part_fails: "checkRefDes_part p = Inl e \<longleftrightarrow> refDes p = [] \<and> e = IndexError"
  by (auto simp: checkRefDes_part_def item_def)

lemma checkRefDes_part_isl: "isl (checkRefDes_part p) \<longleftrightarrow> refDes p = []"
  by (auto simp: checkRefDes_part_def item_def)

lemma for_each_isl: "isl (for_each body xs errs) \<longleftrightarrow> (\<exists>x\<in>set xs. isl (body x))"
proof (induction xs arbitrary: errs)
  case Nil
  then show ?case by simp
next
  case (Cons x xs)
  then show ?case by (cases "body x") simp_all
qed

lemma for_each_Inl_elem: "for_each body xs errs = Inl e \<Longrightarrow> \<exists>x\<in>set xs. body x = Inl e"
proof (induction xs arbitrary: errs)
  case Nil
  then show ?case by simp
next
  case (Cons x xs)
  then show ?case by (cases "body x") auto
qed

lemma checkRefDesErrors_isl: "isl (checkRefDesErrors b) \<longleftrightarrow> (\<exists>p\<in>set (parts b). refDes p = [])"
proof -
  have "isl (checkRefDesErrors b) \<longleftrightarrow> isl (for_each checkRefDes_part (parts b) (errors b))"
    by (cases "for_each checkRefDes_part (parts b) (errors b)") (simp_all add: checkRefDesErrors_def)
  then show ?thesis by (simp add: for_each_isl checkRefDes_part_isl)
qed

lemma checkRefDesErrors_Inl: "checkRefDesErrors b = Inl e \<Longrightarrow> e = IndexError"
proof -
  assume a: "checkRefDesErrors b = Inl e"
  then have "for_each checkRefDes_part (parts b) (errors b) = Inl e"
    by (cases "for_each checkRefDes_part (parts b) (errors b)") (simp_all add: checkRefDesErrors_def)
  from for_each_Inl_elem[OF this] show ?thesis by (auto simp: checkRefDes_part_fails)
qed

text \<open>
  C10. \<open>checkRefDesErrors\<close> reads \<open>part.refDes[0]\<close> unguarded: it returns exactly when
  every part has a non-empty \<open>refDes\<close>, and raises IndexError otherwise. A quoted first
  line with only whitespace after its last double quote gives an empty \<open>refDes\<close>; on
  the board built from such a placement record the check, and with it
  \<open>checkAllErrors\<close>, raises IndexError.
\<close>

theorem refdes_check_needs_nonempty_refdes:
  "((\<exists>b'. checkRefDesErrors b = Inr b') \<longleftrightarrow> (\<forall>p\<in>set (parts b). refDes p \<noteq> []))
   \<and> (checkRefDesErrors b = Inl IndexError \<longleftrightarrow> (\<exists>p\<in>set (parts b). refDes p = []))
   \<and> (list_all isspace post \<longrightarrow> (\<exists>pName. getNames (pre @ CHR 0x22 # post) = Inr (pName, [])))
   \<and> emnObj_init dec_float quoted_placement_file ''board.emn'' = Inr quoted_placement_board
   \<and> checkRefDesErrors quoted_placement_board = Inl IndexError
   \<and> checkAllErrors quoted_placement_board None = Inl IndexError"
proof (intro conjI)
  show "(\<exists>b'. checkRefDesErrors b = Inr b') \<longleftrightarrow> (\<forall>p\<in>set (parts b). refDes p \<noteq> [])"
    using checkRefDesErrors_isl[of b] by (cases "checkRefDesErrors b") auto
  show "checkRefDesErrors b = Inl IndexError \<longleftrightarrow> (\<exists>p\<in>set (parts b). refDes p = [])"
    using checkRefDesErrors_isl[of b] checkRefDesErrors_Inl[of b]
    by (cases "checkRefDesErrors b") auto
  show "list_all isspace post \<longrightarrow> (\<exists>pName. getNames (pre @ CHR 0x22 # post) = Inr (pName, []))"
    using getNames_quote_then_spaces by blast
  show "emnObj_init dec_float quoted_placement_file ''board.emn'' = Inr quoted_placement_board"
    by code_simp
  show "checkRefDesErrors quoted_placement_board = Inl IndexError"
    by (simp add: quoted_placement_board_def checkRefDesErrors_def checkRefDes_part_def item_def)
  show "checkAllErrors quoted_placement_board None = Inl IndexError"
    by (simp add: quoted_placement_board_def checkAllErrors_def checkHeightErrors_def checkNegErrors_def
      checkClosedErrors_def checkRefDesErrors_def checkRoundCutout_def checkEmpty_def
      checkArcAngle_def checkNeg_part_def checkRefDes_part_def item_def)
qed

theorem refdes_check_needs_nonempty_refdes_witness:
  "list_all isspace [CHR 0x0A]
   \<and> getNames (quoted_placement_file ! 1) = Inr (''cap_0603'', [])
   \<and> list_ex (\<lambda>p. refDes p = []) (parts quoted_placement_board)
   \<and> checkRefDesErrors quoted_placement_board = Inl IndexError
   \<and> list_all (\<lambda>p. refDes p \<noteq> []) (parts lib_board)
   \<and> checkRefDesErrors lib_board = Inr lib_board"
proof -
  have sp: "list_all isspace [CHR 0x0A]" by (simp add: isspace_def)
  have nm: "getNames (quoted_placement_file ! 1) = Inr (''cap_0603'', [])" by code_simp
  have ex: "\<exists>p\<in>set (parts quoted_placement_board). refDes p = []"
    by (simp add: quoted_placement_board_def)
  have al: "\<forall>p\<in>set (parts lib_board). refDes p \<noteq> []" by (simp add: lib_board_def)
  have ok: "checkRefDesErrors lib_board = Inr lib_board"
    by (simp add: lib_board_def checkRefDesErrors_def checkRefDes_part_def item_def)
  from refdes_check_needs_nonempty_refdes[of quoted_placement_board "[CHR 0x0A]" "[]"]
    refdes_check_needs_nonempty_refdes[of lib_board "[CHR 0x0A]" "[]"] sp nm ex al ok
  show ?thesis by (simp add: list_all_iff list_ex_iff)
qed

end
